theory Spec2Isabelle
  imports Complex_Main
begin

section \<open>Python values and errors\<close>

text \<open>
  Exceptions of the Python source are values of \<open>py_error\<close>; a fallible computation
  returns \<open>py_error + 'a\<close> with \<open>Inl\<close> for the raised exception.
\<close>

datatype py_error = IndexError | AxisError | ValueError | ZeroDivisionError | RuntimeError

text \<open>The subscript \<open>xs[i]\<close> of a Python list: an index in \<open>[-n, -1]\<close> addresses
  position \<open>n + i\<close>, and an index outside \<open>[-n, n-1]\<close> raises.\<close>

definition py_getitem :: "'a list \<Rightarrow> int \<Rightarrow> py_error + 'a" where
  "py_getitem xs i =
     (if 0 \<le> i \<and> i < int (length xs) then Inr (xs ! nat i)
      else if i < 0 \<and> - int (length xs) \<le> i then Inr (xs ! nat (int (length xs) + i))
      else Inl IndexError)"

text \<open>
  \<open>int((t2+t1)/2)\<close>: true division followed by truncation towards zero. The binary64
  quotient of an integer by two is exact below \<open>2^53\<close>, which covers every index of a
  list that fits in memory; the model is the exact truncation.
\<close>

definition int_truediv2 :: "int \<Rightarrow> int" where
  "int_truediv2 s = (if 0 \<le> s then s div 2 else - ((- s) div 2))"

section \<open>Zero-crossing search: \<open>get_zero_dichoto\<close>\<close>

text \<open>
  One pass through the body of the \<open>while\<close> loop of \<open>get_zero_dichoto\<close>: the
  midpoint \<open>t3\<close>, the two subscripts \<open>sigZero[t2]\<close> and \<open>sigZero[t3]\<close> (either may
  raise), and the new window. The element type only needs the operations the source uses,
  so that the index arithmetic is independent of the number representation.
\<close>

definition dichoto_step ::
  "('a::{times,zero,ord}) list \<Rightarrow> int \<Rightarrow> int \<Rightarrow> py_error + (int \<times> int)" where
  "dichoto_step sigZero t1 t2 =
     (let t3 = int_truediv2 (t2 + t1) in
      case py_getitem sigZero t2 of
        Inl e \<Rightarrow> Inl e
      | Inr a \<Rightarrow>
         (case py_getitem sigZero t3 of
            Inl e \<Rightarrow> Inl e
          | Inr b \<Rightarrow> Inr (if a * b \<ge> 0 then (t1, t3) else (t3, t2))))"

text \<open>
  The loop \<open>while (t2 - t1 > 1) and (ncount < 10000)\<close>. The result carries the final
  window, the final \<open>ncount\<close> and the list \<open>rd\<close> of subscripts used on \<open>sigZero\<close>, in
  the order they were read.
\<close>

function dichoto_loop ::
  "('a::{times,zero,ord}) list \<Rightarrow> nat \<Rightarrow> int \<Rightarrow> int \<Rightarrow> int list
     \<Rightarrow> py_error + (int \<times> int \<times> nat \<times> int list)" where
  "dichoto_loop sigZero ncount t1 t2 rd =
     (if t2 - t1 > 1 \<and> ncount < 10000 then
        (case dichoto_step sigZero t1 t2 of
           Inl e \<Rightarrow> Inl e
         | Inr w \<Rightarrow>
             dichoto_loop sigZero (Suc ncount) (fst w) (snd w)
               (rd @ [t2, int_truediv2 (t2 + t1)]))
      else Inr (t1, t2, ncount, rd))"
  by pat_completeness auto
termination
  by (relation "measure (\<lambda>(sigZero, ncount, t1, t2, rd). 10000 - ncount)") auto

definition get_zero_dichoto ::
  "('a::{minus,times,zero,ord}) list \<Rightarrow> 'a \<Rightarrow> int \<Rightarrow> int option \<Rightarrow> py_error + int" where
  "get_zero_dichoto sig target t1 t2 =
     (let n = length sig;
          sigZero = map (\<lambda>v. v - target) sig;
          t2' = (case t2 of None \<Rightarrow> int n - 1 | Some t \<Rightarrow> t)
      in case dichoto_loop sigZero 0 t1 t2' [] of
           Inl e \<Rightarrow> Inl e
         | Inr r \<Rightarrow> Inr (fst r))"

section \<open>Cursor location: \<open>get_cursor\<close>\<close>

text \<open>True division of Python numbers raises on a zero divisor.\<close>

definition py_truediv :: "('a::{inverse,zero}) \<Rightarrow> 'a \<Rightarrow> py_error + 'a" where
  "py_truediv a b = (if b = 0 then Inl ZeroDivisionError else Inr (a / b))"

definition get_cursor ::
  "('a::{minus,plus,times,zero,ord,inverse}) list \<Rightarrow> 'a list \<Rightarrow> 'a \<Rightarrow> 'a option \<Rightarrow> 'a option
     \<Rightarrow> bool \<Rightarrow> py_error + 'a" where
  "get_cursor x0 y0 pointer t1 t2 Xaxis =
     (let x = (if Xaxis then y0 else x0);
          y = (if Xaxis then x0 else y0)
      in case (case t1 of None \<Rightarrow> Inr 0 | Some g \<Rightarrow> get_zero_dichoto x g 0 None) of
           Inl e \<Rightarrow> Inl e
         | Inr t1' \<Rightarrow>
        (case (case t2 of None \<Rightarrow> Inr None
                 | Some g \<Rightarrow> map_sum id Some (get_zero_dichoto x g 0 None)) of
           Inl e \<Rightarrow> Inl e
         | Inr t2' \<Rightarrow>
        (case get_zero_dichoto y pointer t1' t2' of
           Inl e \<Rightarrow> Inl e
         | Inr t \<Rightarrow>
        (case py_getitem y (t + 1) of Inl e \<Rightarrow> Inl e | Inr y1 \<Rightarrow>
        (case py_getitem y t of Inl e \<Rightarrow> Inl e | Inr yt \<Rightarrow>
        (case py_getitem x (t + 1) of Inl e \<Rightarrow> Inl e | Inr x1 \<Rightarrow>
        (case py_getitem x t of Inl e \<Rightarrow> Inl e | Inr xt \<Rightarrow>
        (case py_truediv (y1 - yt) (x1 - xt) of Inl e \<Rightarrow> Inl e | Inr slope \<Rightarrow>
        (case py_truediv (pointer - yt) slope of Inl e \<Rightarrow> Inl e | Inr q \<Rightarrow>
           Inr (q + xt))))))))))"

section \<open>The numpy fragment used by \<open>do_stack\<close>\<close>

text \<open>
  An array value: its shape and its elements in C (row-major) order. The per-slice
  operation passed to \<open>do_stack\<close> maps such values to such values.
\<close>

record 'a ndarray =
  nd_shape :: "nat list"
  nd_data :: "'a list"

text \<open>
  An ndarray object is a view onto memory: its shape, and for each element, in C order,
  the address of the memory cell that holds it. Two arrays alias when they share a cell.
  The store is the memory together with the number of calls of the per-slice operation
  made so far.
\<close>

record view =
  v_shape :: "nat list"
  v_cells :: "nat list"

record 'a store =
  mem :: "'a list"
  calls :: nat

text \<open>All multi-indices of a shape in C order, and the C-order position of one.\<close>

fun indices :: "nat list \<Rightarrow> nat list list" where
  "indices [] = [[]]"
| "indices (d # ds) = concat (map (\<lambda>i. map ((#) i) (indices ds)) [0..<d])"

fun ravel :: "nat list \<Rightarrow> nat list \<Rightarrow> nat" where
  "ravel (d # ds) (i # is) = i * prod_list ds + ravel ds is"
| "ravel _ _ = 0"

definition swap_list :: "'b list \<Rightarrow> nat \<Rightarrow> nat \<Rightarrow> 'b list" where
  "swap_list xs a b = xs[a := xs ! b, b := xs ! a]"

definition normalize_axis :: "nat \<Rightarrow> int \<Rightarrow> py_error + nat" where
  "normalize_axis r ax =
     (if - int r \<le> ax \<and> ax < int r
      then Inr (nat (if ax < 0 then ax + int r else ax))
      else Inl AxisError)"

text \<open>\<open>np.swapaxes\<close> always returns a view of its argument.\<close>

definition np_swapaxes :: "view \<Rightarrow> int \<Rightarrow> int \<Rightarrow> py_error + view" where
  "np_swapaxes v ax1 ax2 =
     (case normalize_axis (length (v_shape v)) ax1 of
        Inl e \<Rightarrow> Inl e
      | Inr a \<Rightarrow>
         (case normalize_axis (length (v_shape v)) ax2 of
            Inl e \<Rightarrow> Inl e
          | Inr b \<Rightarrow>
              Inr \<lparr>v_shape = swap_list (v_shape v) a b,
                   v_cells = map (\<lambda>idx. v_cells v ! ravel (v_shape v) (swap_list idx a b))
                                 (indices (swap_list (v_shape v) a b))\<rparr>))"

definition np_zeros :: "nat list \<Rightarrow> ('a::zero) store \<Rightarrow> 'a store \<times> view" where
  "np_zeros shape s =
     (s\<lparr>mem := mem s @ replicate (prod_list shape) 0\<rparr>,
      \<lparr>v_shape = shape,
       v_cells = [length (mem s) ..< length (mem s) + prod_list shape]\<rparr>)"

definition np_read :: "'a store \<Rightarrow> view \<Rightarrow> 'a ndarray" where
  "np_read s v = \<lparr>nd_shape = v_shape v, nd_data = map (\<lambda>a. mem s ! a) (v_cells v)\<rparr>"

text \<open>
  \<open>np.reshape\<close> returns a view when the elements, taken in C order, lie at addresses
  that some offset and strides of the new shape describe, and a fresh copy otherwise.
\<close>

definition stride_of :: "nat list \<Rightarrow> nat list \<Rightarrow> nat \<Rightarrow> int" where
  "stride_of shape cells k =
     (if shape ! k \<le> 1 then 0
      else int (cells ! prod_list (drop (Suc k) shape)) - int (cells ! 0))"

definition strided_cells :: "int \<Rightarrow> int list \<Rightarrow> nat list \<Rightarrow> int list" where
  "strided_cells off strides shape =
     map (\<lambda>idx. off + sum_list (map2 (\<lambda>i st. int i * st) idx strides)) (indices shape)"

definition is_strided :: "nat list \<Rightarrow> nat list \<Rightarrow> bool" where
  "is_strided shape cells =
     (cells = [] \<or>
      map int cells =
        strided_cells (int (cells ! 0)) (map (stride_of shape cells) [0..<length shape]) shape)"

definition np_reshape :: "view \<Rightarrow> nat list \<Rightarrow> 'a store \<Rightarrow> 'a store \<times> (py_error + view)" where
  "np_reshape v shape s =
     (if prod_list shape \<noteq> length (v_cells v) then (s, Inl ValueError)
      else if is_strided shape (v_cells v) then (s, Inr \<lparr>v_shape = shape, v_cells = v_cells v\<rparr>)
      else (s\<lparr>mem := mem s @ map (\<lambda>a. mem s ! a) (v_cells v)\<rparr>,
            Inr \<lparr>v_shape = shape,
                 v_cells = [length (mem s) ..< length (mem s) + length (v_cells v)]\<rparr>))"

text \<open>\<open>np.reshape(a, (-1, *rest))\<close>: the unknown length is inferred from the size.\<close>

definition np_reshape_infer ::
  "view \<Rightarrow> nat list \<Rightarrow> 'a store \<Rightarrow> 'a store \<times> (py_error + view)" where
  "np_reshape_infer v rest s =
     (let p = prod_list rest; n = length (v_cells v)
      in if p = 0 \<or> n mod p \<noteq> 0 then (s, Inl ValueError)
         else np_reshape v ((n div p) # rest) s)"

text \<open>\<open>a[i]\<close> for a non-negative \<open>i\<close>: the view of the \<open>i\<close>-th entry along the first axis.\<close>

definition np_index :: "view \<Rightarrow> nat \<Rightarrow> py_error + view" where
  "np_index v i =
     (case v_shape v of
        [] \<Rightarrow> Inl IndexError
      | d # ds \<Rightarrow>
          if i < d
          then Inr \<lparr>v_shape = ds,
                    v_cells = take (prod_list ds) (drop (i * prod_list ds) (v_cells v))\<rparr>
          else Inl IndexError)"

text \<open>
  Assignment \<open>target[...] = value\<close> broadcasts the value to the target's shape: leading
  axes of length one are dropped from a value of higher rank, the shapes are aligned at
  the right, and an axis of the value must have the target's length or length one.
\<close>

fun strip_ones :: "nat \<Rightarrow> nat list \<Rightarrow> nat list" where
  "strip_ones n [] = []"
| "strip_ones n (d # ds) = (if n < length (d # ds) \<and> d = 1 then strip_ones n ds else d # ds)"

definition broadcast_to :: "'a ndarray \<Rightarrow> nat list \<Rightarrow> py_error + 'a list" where
  "broadcast_to val tshape =
     (let vs = strip_ones (length tshape) (nd_shape val)
      in if length tshape < length vs then Inl ValueError
         else
           let pvs = replicate (length tshape - length vs) 1 @ vs
           in if list_all (\<lambda>(v, t). v = t \<or> v = 1) (zip pvs tshape)
              then Inr (map (\<lambda>idx. nd_data val !
                               ravel pvs (map2 (\<lambda>v i. if v = 1 then 0 else i) pvs idx))
                            (indices tshape))
              else Inl ValueError)"

definition np_assign :: "view \<Rightarrow> 'a ndarray \<Rightarrow> 'a store \<Rightarrow> 'a store \<times> (py_error + unit)" where
  "np_assign t val s =
     (case broadcast_to val (v_shape t) of
        Inl e \<Rightarrow> (s, Inl e)
      | Inr ds \<Rightarrow>
          (s\<lparr>mem := fold (\<lambda>(a, x) m. m[a := x]) (zip (v_cells t) ds) (mem s)\<rparr>, Inr ()))"

text \<open>Python list slices \<open>xs[:-n]\<close> and \<open>xs[-n:]\<close> for \<open>n \<ge> 0\<close>; note \<open>-0 = 0\<close>.\<close>

definition py_slice_to_neg :: "'b list \<Rightarrow> nat \<Rightarrow> 'b list" where
  "py_slice_to_neg xs n = (if n = 0 then [] else take (length xs - n) xs)"

definition py_slice_from_neg :: "'b list \<Rightarrow> nat \<Rightarrow> 'b list" where
  "py_slice_from_neg xs n = (if n = 0 then xs else drop (length xs - n) xs)"

text \<open>\<open>list(range(-ndim, 0))\<close>\<close>

definition py_range_neg :: "nat \<Rightarrow> int list" where
  "py_range_neg ndim = map (\<lambda>i. int i - int ndim) [0..<ndim]"

section \<open>The stacking engine: \<open>do_stack\<close>\<close>

text \<open>
  \<open>for i in range(ndim): array = np.swapaxes(array, axes[i], lastaxes[i])\<close>
\<close>

fun swap_axes_loop :: "view \<Rightarrow> int list \<Rightarrow> int list \<Rightarrow> nat list \<Rightarrow> py_error + view" where
  "swap_axes_loop arr axes lastaxes [] = Inr arr"
| "swap_axes_loop arr axes lastaxes (i # is) =
     (case py_getitem axes (int i) of
        Inl e \<Rightarrow> Inl e
      | Inr ax \<Rightarrow>
     (case py_getitem lastaxes (int i) of
        Inl e \<Rightarrow> Inl e
      | Inr la \<Rightarrow>
     (case np_swapaxes arr ax la of
        Inl e \<Rightarrow> Inl e
      | Inr arr' \<Rightarrow> swap_axes_loop arr' axes lastaxes is)))"

text \<open>
  The second loop over \<open>range(ndim)\<close>, under the comment \<open># Reswap axes\<close>: it swaps
  both the array and the output, visiting \<open>i\<close> in the same increasing order as the first.
\<close>

fun reswap_loop ::
  "view \<Rightarrow> view \<Rightarrow> int list \<Rightarrow> int list \<Rightarrow> nat list \<Rightarrow> py_error + (view \<times> view)" where
  "reswap_loop arr out axes lastaxes [] = Inr (arr, out)"
| "reswap_loop arr out axes lastaxes (i # is) =
     (case py_getitem axes (int i) of
        Inl e \<Rightarrow> Inl e
      | Inr ax \<Rightarrow>
     (case py_getitem lastaxes (int i) of
        Inl e \<Rightarrow> Inl e
      | Inr la \<Rightarrow>
     (case np_swapaxes arr ax la of
        Inl e \<Rightarrow> Inl e
      | Inr arr' \<Rightarrow>
     (case np_swapaxes out ax la of
        Inl e \<Rightarrow> Inl e
      | Inr out' \<Rightarrow> reswap_loop arr' out' axes lastaxes is))))"

text \<open>
  The operation \<open>func\<close> of \<open>do_stack\<close>, with its extra arguments bound, receives
  the view \<open>array[i]\<close> itself: it can read the store, write to it (also to the cells
  of its argument), allocate, and raise. Its result is the contents of the array it
  returns. An operation that only reads its slice and returns a new array is the lifting
  \<open>value_op\<close> of a function on array values.
\<close>

type_synonym 'a slice_op = "view \<Rightarrow> 'a store \<Rightarrow> 'a store \<times> (py_error + 'a ndarray)"

definition value_op :: "('a ndarray \<Rightarrow> py_error + 'a ndarray) \<Rightarrow> 'a slice_op" where
  "value_op f v s = (s, f (np_read s v))"

text \<open>
  \<open>for i in range(array.shape[0]): output[i] = func(array[i], *args, **kwargs)\<close>.
  The right-hand side is evaluated first; each call is counted in the store.
\<close>

fun stack_loop ::
  "'a slice_op \<Rightarrow> view \<Rightarrow> view \<Rightarrow> nat list \<Rightarrow> 'a store \<Rightarrow> 'a store \<times> (py_error + unit)" where
  "stack_loop func arr out [] s = (s, Inr ())"
| "stack_loop func arr out (i # is) s =
     (case np_index arr i of
        Inl e \<Rightarrow> (s, Inl e)
      | Inr ai \<Rightarrow>
     (case func ai s of
        (s1, Inl e) \<Rightarrow> (s1\<lparr>calls := Suc (calls s)\<rparr>, Inl e)
      | (s1, Inr r) \<Rightarrow>
     (case np_index out i of
        Inl e \<Rightarrow> (s1\<lparr>calls := Suc (calls s)\<rparr>, Inl e)
      | Inr oi \<Rightarrow>
     (case np_assign oi r (s1\<lparr>calls := Suc (calls s)\<rparr>) of
        (s', Inl e) \<Rightarrow> (s', Inl e)
      | (s', Inr u) \<Rightarrow> stack_loop func arr out is s'))))"

text \<open>
  \<open>do_stack(func, ndim, array, *args, axes=None, output=None, **kwargs)\<close>, statement
  by statement: the default selection, the first swapping loop, \<open>stackshape\<close>, the
  default output \<open>np.zeros(array.shape)\<close>, the two reshapes to
  \<open>(-1, *shape[-ndim:])\<close>, the per-slice loop, the two reshapes back and the second
  swapping loop. An exception leaves the store as it was when raised. \<open>ndim\<close> is a
  natural number.
\<close>

definition do_stack ::
  "('a::zero) slice_op \<Rightarrow> nat \<Rightarrow> view \<Rightarrow> int list option
     \<Rightarrow> view option \<Rightarrow> 'a store \<Rightarrow> 'a store \<times> (py_error + view)" where
  "do_stack func ndim array axes output s =
     (let axes' = (case axes of None \<Rightarrow> py_range_neg ndim | Some a \<Rightarrow> a);
          lastaxes = py_range_neg ndim
      in case swap_axes_loop array axes' lastaxes [0..<ndim] of
           Inl e \<Rightarrow> (s, Inl e)
         | Inr arr1 \<Rightarrow>
      let stackshape = py_slice_to_neg (v_shape arr1) ndim
      in case (case output of None \<Rightarrow> np_zeros (v_shape arr1) s | Some out \<Rightarrow> (s, out)) of
           (s1, out1) \<Rightarrow>
        (case np_reshape_infer arr1 (py_slice_from_neg (v_shape arr1) ndim) s1 of
           (s2, Inl e) \<Rightarrow> (s2, Inl e)
         | (s2, Inr arr2) \<Rightarrow>
        (case np_reshape_infer out1 (py_slice_from_neg (v_shape out1) ndim) s2 of
           (s3, Inl e) \<Rightarrow> (s3, Inl e)
         | (s3, Inr out2) \<Rightarrow>
        (case stack_loop func arr2 out2 [0..<hd (v_shape arr2)] s3 of
           (s4, Inl e) \<Rightarrow> (s4, Inl e)
         | (s4, Inr u) \<Rightarrow>
        (case np_reshape arr2 (stackshape @ py_slice_from_neg (v_shape arr2) ndim) s4 of
           (s5, Inl e) \<Rightarrow> (s5, Inl e)
         | (s5, Inr arr3) \<Rightarrow>
        (case np_reshape out2 (stackshape @ py_slice_from_neg (v_shape out2) ndim) s5 of
           (s6, Inl e) \<Rightarrow> (s6, Inl e)
         | (s6, Inr out3) \<Rightarrow>
        (case reswap_loop arr3 out3 axes' lastaxes [0..<ndim] of
           Inl e \<Rightarrow> (s6, Inl e)
         | Inr r \<Rightarrow> (s6, Inr (snd r)))))))))"

section \<open>Mask dilation: \<open>get_circle_kernel\<close> and \<open>enlarge_mask\<close>\<close>

text \<open>
  \<open>kernel[i, j] = (i-(n-1)/2)**2 + (j-(n-1)/2)**2 <= (n/2)**2\<close>, stored in an array of
  numbers. The comparison is between halves and quarters of integers, which binary
  floating point represents exactly; the model computes it over the rationals.
\<close>

definition circle_cell :: "nat \<Rightarrow> nat \<Rightarrow> nat \<Rightarrow> bool" where
  "circle_cell n i j =
     ((rat_of_nat i - (rat_of_nat n - 1) / 2)\<^sup>2 + (rat_of_nat j - (rat_of_nat n - 1) / 2)\<^sup>2
        \<le> (rat_of_nat n / 2)\<^sup>2)"

definition get_circle_kernel :: "nat \<Rightarrow> ('a::{zero,one}) ndarray" where
  "get_circle_kernel n =
     \<lparr>nd_shape = [n, n],
      nd_data = concat (map (\<lambda>i. map (\<lambda>j. if circle_cell n i j then 1 else 0) [0..<n])
                            [0..<n])\<rparr>"

text \<open>A new array holding the given value (the result of \<open>1.*mask\<close>).\<close>

definition np_array :: "'a ndarray \<Rightarrow> 'a store \<Rightarrow> 'a store \<times> view" where
  "np_array val s =
     (s\<lparr>mem := mem s @ nd_data val\<rparr>,
      \<lparr>v_shape = nd_shape val,
       v_cells = [length (mem s) ..< length (mem s) + length (nd_data val)]\<rparr>)"

text \<open>
  \<open>mask = do_stack(ndimage.convolve, 2, 1.*mask, kernel, axes) > 0\<close>. The signature is
  \<open>do_stack(func, ndim, array, *args, axes=None, output=None, **kwargs)\<close>: the two
  positional arguments after the array are collected in \<open>*args\<close> and handed to
  \<open>func\<close>, and the keyword-only parameters \<open>axes\<close> and \<open>output\<close> of \<open>do_stack\<close>
  keep their default \<open>None\<close>. The convolution primitive is a parameter; its second
  and third positional parameters are the weights and \<open>output\<close>. It reads its input
  and returns a new array.
\<close>

definition enlarge_mask ::
  "(('a::{zero,one,ord}) ndarray \<Rightarrow> 'a ndarray \<Rightarrow> int list option \<Rightarrow> py_error + 'a ndarray)
     \<Rightarrow> bool ndarray \<Rightarrow> nat \<Rightarrow> int list option \<Rightarrow> 'a store
     \<Rightarrow> 'a store \<times> (py_error + bool ndarray)" where
  "enlarge_mask convolve msk n_neighbors axes s =
     (let N = 2 * n_neighbors + 1;
          kernel = get_circle_kernel N
      in case np_array \<lparr>nd_shape = nd_shape msk,
                         nd_data = map (\<lambda>b. if b then 1 else 0) (nd_data msk)\<rparr> s of
           (s1, arr) \<Rightarrow>
        (case do_stack (value_op (\<lambda>A. convolve A kernel axes)) 2 arr None None s1 of
           (s2, Inl e) \<Rightarrow> (s2, Inl e)
         | (s2, Inr out) \<Rightarrow>
             (s2, Inr \<lparr>nd_shape = v_shape out,
                       nd_data = map (\<lambda>a. mem s2 ! a > 0) (v_cells out)\<rparr>)))"

section \<open>Grid resampling: \<open>regrid\<close>\<close>

text \<open>Assignment to a Python list element.\<close>

definition py_setitem :: "'b list \<Rightarrow> int \<Rightarrow> 'b \<Rightarrow> py_error + 'b list" where
  "py_setitem xs i v =
     (if 0 \<le> i \<and> i < int (length xs) then Inr (xs[nat i := v])
      else if i < 0 \<and> - int (length xs) \<le> i then Inr (xs[nat (int (length xs) + i) := v])
      else Inl IndexError)"

text \<open>\<open>for i, ax in enumerate(axes): shape[ax] = len(grid[i])\<close>\<close>

fun new_shape_loop :: "nat list \<Rightarrow> 'g list list \<Rightarrow> (nat \<times> int) list \<Rightarrow> py_error + nat list" where
  "new_shape_loop shape grid [] = Inr shape"
| "new_shape_loop shape grid (p # ps) =
     (case py_getitem grid (int (fst p)) of
        Inl e \<Rightarrow> Inl e
      | Inr g \<Rightarrow>
     (case py_setitem shape (snd p) (length g) of
        Inl e \<Rightarrow> Inl e
      | Inr shape' \<Rightarrow> new_shape_loop shape' grid ps))"

text \<open>
  \<open>np.meshgrid(*grid)\<close> with its default \<open>indexing='xy'\<close>: one array per sequence, all
  of one shape, the lengths of the sequences with the first two exchanged; the array of the
  \<open>k\<close>-th sequence repeats it along one axis, axis 1 for the first sequence, axis 0 for
  the second, axis \<open>k\<close> otherwise (axis 0 when there is a single sequence).
\<close>

definition mesh_shape :: "nat list \<Rightarrow> nat list" where
  "mesh_shape ns = (case ns of a # b # rest \<Rightarrow> b # a # rest | _ \<Rightarrow> ns)"

definition mesh_axis :: "nat \<Rightarrow> nat \<Rightarrow> nat" where
  "mesh_axis n k = (if n < 2 then k else if k = 0 then 1 else if k = 1 then 0 else k)"

definition np_meshgrid :: "'a list list \<Rightarrow> 'a ndarray list" where
  "np_meshgrid grid =
     (let sh = mesh_shape (map length grid)
      in map (\<lambda>k. \<lparr>nd_shape = sh,
                    nd_data = map (\<lambda>idx. grid ! k ! (idx ! mesh_axis (length grid) k))
                                  (indices sh)\<rparr>)
             [0..<length grid])"

text \<open>The arrays of a list, each placed in the store as a new array.\<close>

fun np_arrays :: "'a ndarray list \<Rightarrow> 'a store \<Rightarrow> 'a store \<times> view list" where
  "np_arrays [] s = (s, [])"
| "np_arrays (val # vals) s =
     (case np_array val s of
        (s1, w) \<Rightarrow> (case np_arrays vals s1 of (s2, ws) \<Rightarrow> (s2, w # ws)))"

text \<open>
  The per-slice operation of \<open>regrid\<close> is its local function
  \<open>func(A, limits, coords, **kwargs)\<close>, which returns
  \<open>CartesianGrid(limits, A)(*coords, **kwargs).T\<close>: it reads the slice, the limits and
  the coordinate arrays and returns a new array. Its numeric content, the interpolation,
  is the parameter \<open>interp\<close>. \<open>regrid\<close> itself checks the limits, computes the new
  shape, allocates the output with \<open>np.zeros\<close>, builds the coordinate arrays with
  \<open>np.meshgrid\<close> and calls \<open>do_stack\<close>.
\<close>

definition regrid ::
  "('l list \<Rightarrow> 'a ndarray list \<Rightarrow> ('a::zero) ndarray \<Rightarrow> py_error + 'a ndarray)
     \<Rightarrow> view \<Rightarrow> 'l list \<Rightarrow> 'a list list \<Rightarrow> int list option \<Rightarrow> 'a store
     \<Rightarrow> 'a store \<times> (py_error + view)" where
  "regrid interp data limits grid axes s =
     (let ndim = length grid;
          axes' = (case axes of None \<Rightarrow> py_range_neg ndim | Some a \<Rightarrow> a)
      in if length limits \<noteq> ndim then (s, Inl ValueError)
         else
           case new_shape_loop (v_shape data) grid (zip [0..<length axes'] axes') of
             Inl e \<Rightarrow> (s, Inl e)
           | Inr shape \<Rightarrow>
               (case np_zeros shape s of
                  (s1, out) \<Rightarrow>
               (case np_arrays (np_meshgrid grid) s1 of
                  (s2, coords) \<Rightarrow>
                    do_stack (\<lambda>v t. (t, interp limits (map (np_read t) coords) (np_read t v)))
                      ndim data (Some axes') (Some out) s2)))"

section \<open>Properties of the zero-crossing search\<close>

lemma int_truediv2_between:
  assumes "1 < b - a"
  shows "a < int_truediv2 (b + a)" and "int_truediv2 (b + a) < b"
  using assms by (auto simp: int_truediv2_def)

lemma int_truediv2_width:
  assumes "1 < b - a"
  shows "int_truediv2 (b + a) - a \<le> (b - a + 1) div 2"
    and "b - int_truediv2 (b + a) \<le> (b - a + 1) div 2"
  using assms by (auto simp: int_truediv2_def)

text \<open>On a non-negative sum the truncation is the floor of the spec.\<close>

lemma int_truediv2_floor: "0 \<le> s \<Longrightarrow> int_truediv2 s = \<lfloor>(of_int s :: rat) / 2\<rfloor>"
  by (simp add: int_truediv2_def) (metis floor_divide_of_int_eq of_int_numeral)

lemma py_getitem_in_range:
  assumes "- int (length xs) \<le> i" "i < int (length xs)"
  shows "\<exists>v. py_getitem xs i = Inr v"
  using assms by (auto simp: py_getitem_def Let_def)

lemma dichoto_step_in_range:
  assumes "- int (length sz) \<le> a" "b < int (length sz)" "1 < b - a"
  shows "dichoto_step sz a b = Inr (a, int_truediv2 (b + a))
       \<or> dichoto_step sz a b = Inr (int_truediv2 (b + a), b)"
proof -
  let ?m = "int_truediv2 (b + a)"
  have m: "a < ?m" "?m < b" using int_truediv2_between[OF assms(3)] by auto
  obtain u where u: "py_getitem sz b = Inr u"
    using py_getitem_in_range[of sz b] assms by auto
  obtain v where v: "py_getitem sz ?m = Inr v"
    using py_getitem_in_range[of sz ?m] assms m by auto
  show ?thesis by (simp add: dichoto_step_def Let_def u v)
qed

lemma dichoto_step_shrinks:
  assumes "- int (length sz) \<le> a" "b < int (length sz)" "1 < b - a"
  shows "\<exists>a' b'. dichoto_step sz a b = Inr (a', b') \<and> 0 < b' - a' \<and> b' - a' < b - a"
  using dichoto_step_in_range[OF assms] int_truediv2_between[OF assms(3)] by auto

lemma half_pow2: "(w::int) \<le> 2 ^ Suc k \<Longrightarrow> (w + 1) div 2 \<le> 2 ^ k"
  by simp

text \<open>
  The loop invariant: from a window inside the signal the loop returns, its final window
  lies inside the initial one, every subscript it used lies in the initial window, and a
  window of width at most \<open>2^k\<close> is narrowed to width one in at most \<open>k\<close> passes.
\<close>

lemma dichoto_loop_window:
  assumes "- int (length sz) \<le> t1" "t1 < t2" "t2 < int (length sz)"
  shows "\<exists>t1' t2' c rd'. dichoto_loop sz ncount t1 t2 rd = Inr (t1', t2', c, rd')
           \<and> t1 \<le> t1' \<and> t1' < t2' \<and> t2' \<le> t2
           \<and> set rd' \<subseteq> set rd \<union> {t1..t2}
           \<and> (\<forall>k. t2 - t1 \<le> 2 ^ k \<longrightarrow> ncount + k \<le> 10000
                  \<longrightarrow> t2' - t1' = 1 \<and> c \<le> ncount + k)"
  using assms
proof (induction sz ncount t1 t2 rd rule: dichoto_loop.induct)
  case (1 sz ncount t1 t2 rd)
  show ?case
  proof (cases "1 < t2 - t1 \<and> ncount < 10000")
    case False
    have "\<And>k. t2 - t1 \<le> 2 ^ k \<Longrightarrow> ncount + k \<le> 10000 \<Longrightarrow> t2 - t1 = 1"
    proof -
      fix k :: nat assume k: "t2 - t1 \<le> 2 ^ k" "ncount + k \<le> 10000"
      show "t2 - t1 = 1"
      proof (cases "1 < t2 - t1")
        case True
        with False have "ncount \<ge> 10000" by simp
        with k have "k = 0" by simp
        with k True show ?thesis by simp
      next
        case False
        with "1.prems" show ?thesis by simp
      qed
    qed
    moreover have "dichoto_loop sz ncount t1 t2 rd = Inr (t1, t2, ncount, rd)"
      by (subst dichoto_loop.simps) (simp only: False if_False)
    ultimately show ?thesis using "1.prems" by auto
  next
    case True
    let ?m = "int_truediv2 (t2 + t1)"
    have gt: "1 < t2 - t1" using True by simp
    have m: "t1 < ?m" "?m < t2" using int_truediv2_between[OF gt] by auto
    from dichoto_step_in_range[OF "1.prems"(1) "1.prems"(3) gt]
    obtain w where w: "dichoto_step sz t1 t2 = Inr w" "w = (t1, ?m) \<or> w = (?m, t2)"
      by auto
    have wr: "- int (length sz) \<le> fst w" "fst w < snd w" "snd w < int (length sz)"
      using w(2) m "1.prems" by auto
    have ww: "snd w - fst w \<le> (t2 - t1 + 1) div 2"
      using w(2) int_truediv2_width[OF gt] by auto
    from "1.IH"[OF True w(1) wr]
    obtain t1' t2' c rd' where r:
      "dichoto_loop sz (Suc ncount) (fst w) (snd w) (rd @ [t2, ?m]) = Inr (t1', t2', c, rd')"
      "fst w \<le> t1'" "t1' < t2'" "t2' \<le> snd w"
      "set rd' \<subseteq> set (rd @ [t2, ?m]) \<union> {fst w..snd w}"
      "\<forall>k. snd w - fst w \<le> 2 ^ k \<longrightarrow> Suc ncount + k \<le> 10000
             \<longrightarrow> t2' - t1' = 1 \<and> c \<le> Suc ncount + k"
      by blast
    have eq: "dichoto_loop sz ncount t1 t2 rd = Inr (t1', t2', c, rd')"
      by (subst dichoto_loop.simps) (simp only: True if_True w(1) sum.case r(1) simp_thms)
    have b1: "t1 \<le> t1'" "t2' \<le> t2" using r(2,4) w(2) m by auto
    have b2: "set rd' \<subseteq> set rd \<union> {t1..t2}" using r(5) w(2) m by auto
    have b3: "\<And>k. t2 - t1 \<le> 2 ^ k \<Longrightarrow> ncount + k \<le> 10000
                 \<Longrightarrow> t2' - t1' = 1 \<and> c \<le> ncount + k"
    proof -
      fix k :: nat assume k: "t2 - t1 \<le> 2 ^ k" "ncount + k \<le> 10000"
      from gt k(1) have "k \<noteq> 0" by (cases k) auto
      then obtain j where j: "k = Suc j" by (cases k) auto
      have "snd w - fst w \<le> 2 ^ j" using ww half_pow2[of "t2 - t1" j] k(1) j by simp
      moreover have "Suc ncount + j \<le> 10000" using k(2) j by simp
      ultimately have "t2' - t1' = 1 \<and> c \<le> Suc ncount + j" using r(6) by blast
      then show "t2' - t1' = 1 \<and> c \<le> ncount + k" using j by simp
    qed
    show ?thesis using eq b1 r(3) b2 b3 by blast
  qed
qed

text \<open>When the window is already of width at most one the loop body never runs.\<close>

lemma dichoto_loop_narrow:
  "t2 - t1 \<le> 1 \<Longrightarrow> dichoto_loop sz ncount t1 t2 rd = Inr (t1, t2, ncount, rd)"
  by (subst dichoto_loop.simps) simp

text \<open>
  The subscripts of \<open>get_cursor\<close>: for curves of equal length at least two, whatever
  the guesses, the bracket \<open>t\<close> it computes satisfies \<open>0 \<le> t\<close> and \<open>t + 1 < n\<close>,
  so none of \<open>y[t+1]\<close>, \<open>y[t]\<close>, \<open>x[t+1]\<close>, \<open>x[t]\<close> raises.
\<close>

lemma get_zero_dichoto_default_range:
  fixes sig :: "('a::{minus,times,zero,ord}) list"
  assumes "2 \<le> length sig"
  shows "\<exists>r. get_zero_dichoto sig target 0 None = Inr r \<and> 0 \<le> r \<and> r + 1 < int (length sig)"
proof -
  let ?sz = "map (\<lambda>v. v - target) sig"
  have "- int (length ?sz) \<le> 0" "(0::int) < int (length sig) - 1" "int (length sig) - 1 < int (length ?sz)"
    using assms by auto
  from dichoto_loop_window[OF this, of 0 "[]"]
  obtain r t2' c rd where r:
    "dichoto_loop ?sz 0 0 (int (length sig) - 1) [] = Inr (r, t2', c, rd)"
    "0 \<le> r" "r < t2'" "t2' \<le> int (length sig) - 1"
    by blast
  have "get_zero_dichoto sig target 0 None = Inr r"
    by (simp add: get_zero_dichoto_def Let_def r(1) del: dichoto_loop.simps)
  then show ?thesis using r by auto
qed

lemma get_zero_dichoto_any_window:
  fixes sig :: "('a::{minus,times,zero,ord}) list"
  assumes "0 \<le> t1" "t1 + 1 < int (length sig)"
    and "case t2 of None \<Rightarrow> True | Some t \<Rightarrow> t + 1 < int (length sig)"
  shows "\<exists>r. get_zero_dichoto sig target t1 t2 = Inr r \<and> 0 \<le> r \<and> r + 1 < int (length sig)"
proof -
  let ?sz = "map (\<lambda>v. v - target) sig"
  let ?t2 = "case t2 of None \<Rightarrow> int (length sig) - 1 | Some t \<Rightarrow> t"
  have t2: "?t2 < int (length sig)" using assms(3) by (auto split: option.splits)
  have "\<exists>r t2' c rd. dichoto_loop ?sz 0 t1 ?t2 [] = Inr (r, t2', c, rd) \<and> 0 \<le> r \<and> r + 1 < int (length sig)"
  proof (cases "t1 < ?t2")
    case True
    have "- int (length ?sz) \<le> t1" "t1 < ?t2" "?t2 < int (length ?sz)"
      using assms(1) True t2 by auto
    from dichoto_loop_window[OF this, of 0 "[]"]
    obtain r t2' c rd where r:
      "dichoto_loop ?sz 0 t1 ?t2 [] = Inr (r, t2', c, rd)"
      "t1 \<le> r" "r < t2'" "t2' \<le> ?t2"
      by blast
    then show ?thesis using assms(1) t2 by auto
  next
    case False
    then have "dichoto_loop ?sz 0 t1 ?t2 [] = Inr (t1, ?t2, 0, [])"
      by (intro dichoto_loop_narrow) simp
    then show ?thesis using assms(1,2) by auto
  qed
  then obtain r t2' c rd where r: "dichoto_loop ?sz 0 t1 ?t2 [] = Inr (r, t2', c, rd)"
    "0 \<le> r" "r + 1 < int (length sig)" by blast
  have "get_zero_dichoto sig target t1 t2 = Inr r"
    using r(1) by (simp add: get_zero_dichoto_def Let_def del: dichoto_loop.simps)
  then show ?thesis using r by auto
qed

lemma get_cursor_subscripts_in_bounds:
  fixes x y :: "('a::{minus,plus,times,zero,ord,inverse}) list"
  assumes "length x = length y" "2 \<le> length y"
  shows "get_cursor x y pointer t1 t2 Xaxis \<noteq> Inl IndexError"
proof -
  define xs where "xs = (if Xaxis then y else x)"
  define ys where "ys = (if Xaxis then x else y)"
  have len: "length xs = length ys" "2 \<le> length ys" "2 \<le> length xs"
    using assms by (auto simp: xs_def ys_def)
  obtain a where a: "(case t1 of None \<Rightarrow> Inr 0 | Some g \<Rightarrow> get_zero_dichoto xs g 0 None) = Inr a"
    "0 \<le> a" "a + 1 < int (length ys)"
    using get_zero_dichoto_default_range[OF len(3)] len by (cases t1) auto
  obtain b where b: "(case t2 of None \<Rightarrow> Inr None
                 | Some g \<Rightarrow> map_sum id Some (get_zero_dichoto xs g 0 None)) = Inr b"
    "case b of None \<Rightarrow> True | Some t \<Rightarrow> t + 1 < int (length ys)"
  proof (cases t2)
    case None
    then show ?thesis using that[of None] by simp
  next
    case (Some g)
    from get_zero_dichoto_default_range[OF len(3), of g]
    obtain r where "get_zero_dichoto xs g 0 None = Inr r" "r + 1 < int (length xs)" by blast
    then show ?thesis using that[of "Some r"] Some len by simp
  qed
  from get_zero_dichoto_any_window[OF a(2) a(3) b(2), of pointer]
  obtain t where t: "get_zero_dichoto ys pointer a b = Inr t" "0 \<le> t" "t + 1 < int (length ys)"
    by blast
  obtain y1 yt x1 xt where g: "py_getitem ys (t + 1) = Inr y1" "py_getitem ys t = Inr yt"
    "py_getitem xs (t + 1) = Inr x1" "py_getitem xs t = Inr xt"
    using py_getitem_in_range[of ys "t + 1"] py_getitem_in_range[of ys t]
      py_getitem_in_range[of xs "t + 1"] py_getitem_in_range[of xs t] t len
    by auto
  have "get_cursor x y pointer t1 t2 Xaxis =
        (case py_truediv (y1 - yt) (x1 - xt) of Inl e \<Rightarrow> Inl e | Inr slope \<Rightarrow>
        (case py_truediv (pointer - yt) slope of Inl e \<Rightarrow> Inl e | Inr q \<Rightarrow> Inr (q + xt)))"
    unfolding get_cursor_def Let_def xs_def[symmetric] ys_def[symmetric]
    by (simp only: a(1) b(1) t(1) g sum.case)
  then show ?thesis
    by (auto simp: py_truediv_def split: sum.splits if_splits)
qed

text \<open>
  Claim C4. The spec expects \<open>get_zero_dichoto([-2,-1,0,1,2], target=0)\<close> to return an
  index in \<open>{1, 2}\<close>. The code returns \<open>0\<close>: the sample at index 2 is exactly zero, so both
  products \<open>sigZero[t2]*sigZero[t3]\<close> are zero and the right bound moves twice, leaving
  the bracket \<open>[0, 1]\<close> in which the signal does not cross the target.
\<close>

theorem get_zero_dichoto_exact_zero_sample:
  "get_zero_dichoto [-2, -1, 0, 1, 2 :: int] 0 0 None = Inr 0
   \<and> get_zero_dichoto [-2, -1, 0, 1, 2 :: int] 0 0 None \<notin> {Inr 1, Inr 2}"
  by (simp add: get_zero_dichoto_def dichoto_step_def py_getitem_def int_truediv2_def)

text \<open>
  Claim C7, as stated, for every signal and every window with \<open>t1 < t2\<close>: it fails when
  the window does not lie inside the signal, where the first subscript raises and nothing
  is returned.
\<close>

theorem get_zero_dichoto_window_outside_signal:
  "(0::int) < 5 \<and> get_zero_dichoto [1, 2 :: int] 0 0 (Some 5) = Inl IndexError"
  by (simp add: get_zero_dichoto_def dichoto_step_def py_getitem_def int_truediv2_def)

text \<open>
  Claim C7, amended: for every signal of length \<open>n\<close> and every initial window with
  \<open>-n \<le> t1 < t2 \<le> n - 1\<close> (the indices Python accepts), every pass of the loop body
  on a window inside the initial one succeeds and returns a strictly narrower window of
  positive width; if the initial width is at most \<open>2^k\<close> with \<open>k < 10000\<close>, the loop
  ends with \<open>t2 - t1 = 1\<close> after at most \<open>k\<close> passes, hence before the cap, and
  \<open>get_zero_dichoto\<close> returns the final \<open>t1\<close>.
\<close>

theorem get_zero_dichoto_terminates:
  fixes sig :: "('a::{minus,times,zero,ord}) list"
  assumes "- int (length sig) \<le> t1" "t1 < t2" "t2 \<le> int (length sig) - 1"
    and "t2 - t1 \<le> 2 ^ k" "k < 10000"
  shows "(\<forall>a b. t1 \<le> a \<and> b \<le> t2 \<and> 1 < b - a \<longrightarrow>
            (\<exists>a' b'. dichoto_step (map (\<lambda>v. v - target) sig) a b = Inr (a', b')
                      \<and> 0 < b' - a' \<and> b' - a' < b - a))
       \<and> (\<exists>t1' t2' c rd.
            dichoto_loop (map (\<lambda>v. v - target) sig) 0 t1 t2 [] = Inr (t1', t2', c, rd)
            \<and> t2' - t1' = 1 \<and> c \<le> k \<and> c < 10000
            \<and> get_zero_dichoto sig target t1 (Some t2) = Inr t1')"
proof (intro conjI allI impI)
  let ?sz = "map (\<lambda>v. v - target) sig"
  fix a b assume ab: "t1 \<le> a \<and> b \<le> t2 \<and> 1 < b - a"
  have "- int (length ?sz) \<le> a" "b < int (length ?sz)" "1 < b - a"
    using ab assms(1,3) by auto
  from dichoto_step_shrinks[OF this]
  show "\<exists>a' b'. dichoto_step ?sz a b = Inr (a', b') \<and> 0 < b' - a' \<and> b' - a' < b - a" .
next
  let ?sz = "map (\<lambda>v. v - target) sig"
  have "- int (length ?sz) \<le> t1" "t1 < t2" "t2 < int (length ?sz)"
    using assms(1,2,3) by auto
  from dichoto_loop_window[OF this, of 0 "[]"]
  obtain t1' t2' c rd where r:
    "dichoto_loop ?sz 0 t1 t2 [] = Inr (t1', t2', c, rd)"
    "\<forall>k. t2 - t1 \<le> 2 ^ k \<longrightarrow> 0 + k \<le> 10000 \<longrightarrow> t2' - t1' = 1 \<and> c \<le> 0 + k"
    by blast
  have fin: "t2' - t1' = 1" "c \<le> k" using r(2) assms(4,5) by auto
  have "get_zero_dichoto sig target t1 (Some t2) = Inr t1'"
    by (simp add: get_zero_dichoto_def Let_def r(1) del: dichoto_loop.simps)
  then show "\<exists>t1' t2' c rd.
      dichoto_loop ?sz 0 t1 t2 [] = Inr (t1', t2', c, rd)
      \<and> t2' - t1' = 1 \<and> c \<le> k \<and> c < 10000
      \<and> get_zero_dichoto sig target t1 (Some t2) = Inr t1'"
    using r(1) fin assms(5) by auto
qed

theorem get_zero_dichoto_terminates_witness:
  "- int (length [-2, -1, 0, 1, 2 :: int]) \<le> 0 \<and> (0::int) < 4
   \<and> (4::int) \<le> int (length [-2, -1, 0, 1, 2 :: int]) - 1
   \<and> (4::int) - 0 \<le> 2 ^ 2 \<and> (2::nat) < 10000
   \<and> (\<exists>t1' t2' c rd.
        dichoto_loop (map (\<lambda>v. v - 0) [-2, -1, 0, 1, 2 :: int]) 0 0 4 [] = Inr (t1', t2', c, rd)
        \<and> t2' - t1' = 1 \<and> c \<le> 2 \<and> c < 10000
        \<and> get_zero_dichoto [-2, -1, 0, 1, 2 :: int] 0 0 (Some 4) = Inr t1')"
proof -
  have h1: "- int (length [-2, -1, 0, 1, 2 :: int]) \<le> 0" by simp
  have h2: "(0::int) < 4" by simp
  have h3: "(4::int) \<le> int (length [-2, -1, 0, 1, 2 :: int]) - 1" by simp
  have h4: "(4::int) - 0 \<le> 2 ^ 2" by simp
  have h5: "(2::nat) < 10000" by simp
  from get_zero_dichoto_terminates[OF h1 h2 h3 h4 h5, of 0]
  show ?thesis using h1 h2 h3 h4 h5 by blast
qed

text \<open>
  Claim C8. \<open>get_cursor(x=[0,1,2,3], y=[0,1,2,3], pointer=1.5)\<close> with the other
  arguments at their defaults returns exactly \<open>1.5\<close>. Every number that occurs is a
  multiple of one half of small magnitude, so the rational arithmetic of the model and
  the binary floating point of the source agree.
\<close>

theorem get_cursor_example:
  "get_cursor [0, 1, 2, 3 :: rat] [0, 1, 2, 3] (3 / 2) None None False = Inr (3 / 2)"
  by (simp add: get_cursor_def get_zero_dichoto_def dichoto_step_def py_getitem_def
      int_truediv2_def py_truediv_def)



section \<open>Properties of the stacking engine\<close>

subsection \<open>Failure of the axis-swapping loop\<close>

lemma np_swapaxes_rank:
  "np_swapaxes v a b = Inr v' \<Longrightarrow> length (v_shape v') = length (v_shape v)"
  by (auto simp: np_swapaxes_def swap_list_def split: sum.splits)

lemma np_swapaxes_error: "np_swapaxes v a b = Inl e \<Longrightarrow> e = AxisError"
  by (auto simp: np_swapaxes_def normalize_axis_def split: sum.splits if_splits)

lemma np_swapaxes_bad_axis:
  assumes "\<not> (- int (length (v_shape v)) \<le> a \<and> a < int (length (v_shape v)))
         \<or> \<not> (- int (length (v_shape v)) \<le> b \<and> b < int (length (v_shape v)))"
  shows "np_swapaxes v a b = Inl AxisError"
  using assms by (auto simp: np_swapaxes_def normalize_axis_def split: sum.splits)

lemma py_getitem_error: "py_getitem xs i = Inl e \<Longrightarrow> e = IndexError"
  by (auto simp: py_getitem_def split: if_splits)

lemma py_getitem_nat:
  "py_getitem xs (int i) = (if i < length xs then Inr (xs ! i) else Inl IndexError)"
  by (auto simp: py_getitem_def)

lemma swap_axes_loop_error:
  "swap_axes_loop arr axes lastaxes is = Inl e \<Longrightarrow> e = IndexError \<or> e = AxisError"
proof (induction "is" arbitrary: arr)
  case Nil
  then show ?case by simp
next
  case (Cons i "is")
  then show ?case
    by (auto split: sum.splits dest: py_getitem_error np_swapaxes_error)
qed

lemma swap_axes_loop_fails:
  assumes "\<exists>i\<in>set is. \<not> i < length axes \<or> \<not> i < length lastaxes
             \<or> \<not> (- int (length (v_shape arr)) \<le> axes ! i \<and> axes ! i < int (length (v_shape arr)))
             \<or> \<not> (- int (length (v_shape arr)) \<le> lastaxes ! i \<and> lastaxes ! i < int (length (v_shape arr)))"
  shows "\<exists>e. swap_axes_loop arr axes lastaxes is = Inl e"
  using assms
proof (induction "is" arbitrary: arr)
  case Nil
  then show ?case by simp
next
  case (Cons i "is")
  show ?case
  proof (cases "swap_axes_loop arr axes lastaxes (i # is)")
    case (Inl e)
    then show ?thesis by simp
  next
    case (Inr res)
    then obtain arr' where
      i: "i < length axes" "i < length lastaxes"
      and sw: "np_swapaxes arr (axes ! i) (lastaxes ! i) = Inr arr'"
      and rest: "swap_axes_loop arr' axes lastaxes is = Inr res"
      by (auto simp: py_getitem_nat split: sum.splits if_splits)
    have ok: "(- int (length (v_shape arr)) \<le> axes ! i \<and> axes ! i < int (length (v_shape arr)))"
      "(- int (length (v_shape arr)) \<le> lastaxes ! i \<and> lastaxes ! i < int (length (v_shape arr)))"
      using sw np_swapaxes_bad_axis[of arr "axes ! i" "lastaxes ! i"] by auto
    have rk: "length (v_shape arr') = length (v_shape arr)" using np_swapaxes_rank[OF sw] .
    from Cons.prems i ok
    have "\<exists>i\<in>set is. \<not> i < length axes \<or> \<not> i < length lastaxes
             \<or> \<not> (- int (length (v_shape arr')) \<le> axes ! i \<and> axes ! i < int (length (v_shape arr')))
             \<or> \<not> (- int (length (v_shape arr')) \<le> lastaxes ! i \<and> lastaxes ! i < int (length (v_shape arr')))"
      unfolding rk by auto
    from Cons.IH[OF this] rest show ?thesis by simp
  qed
qed

lemma do_stack_swap_fails:
  assumes "swap_axes_loop array (case axes of None \<Rightarrow> py_range_neg ndim | Some a \<Rightarrow> a)
             (py_range_neg ndim) [0..<ndim] = Inl e"
  shows "do_stack func ndim array axes output s = (s, Inl e)"
  using assms by (simp add: do_stack_def Let_def)

lemma py_range_neg_nth: "i < ndim \<Longrightarrow> py_range_neg ndim ! i = int i - int ndim"
  by (simp add: py_range_neg_def)

lemma py_range_neg_length: "length (py_range_neg ndim) = ndim"
  by (simp add: py_range_neg_def)

text \<open>Entries of the selection beyond the first \<open>ndim\<close> are never read.\<close>

lemma swap_axes_loop_extra:
  "\<forall>i\<in>set is. i < length axes \<Longrightarrow>
   swap_axes_loop arr (axes @ extra) lastaxes is = swap_axes_loop arr axes lastaxes is"
  by (induction "is" arbitrary: arr) (auto simp: py_getitem_nat nth_append split: sum.splits)

lemma reswap_loop_extra:
  "\<forall>i\<in>set is. i < length axes \<Longrightarrow>
   reswap_loop arr out (axes @ extra) lastaxes is = reswap_loop arr out axes lastaxes is"
  by (induction "is" arbitrary: arr out) (auto simp: py_getitem_nat nth_append split: sum.splits)

lemma do_stack_fails_early:
  fixes func :: "('a::zero) slice_op"
  assumes "sel = (case axes of None \<Rightarrow> py_range_neg ndim | Some a \<Rightarrow> a)"
    and "\<exists>i<ndim. \<not> i < length sel
           \<or> \<not> (- int (length (v_shape array)) \<le> sel ! i \<and> sel ! i < int (length (v_shape array)))
           \<or> \<not> (- int (length (v_shape array)) \<le> int i - int ndim)"
  shows "\<exists>e. do_stack func ndim array axes output s = (s, Inl e)
              \<and> (e = IndexError \<or> e = AxisError)"
proof -
  from assms(2) obtain i where i: "i < ndim"
    "\<not> i < length sel
       \<or> \<not> (- int (length (v_shape array)) \<le> sel ! i \<and> sel ! i < int (length (v_shape array)))
       \<or> \<not> (- int (length (v_shape array)) \<le> int i - int ndim)"
    by blast
  have "i \<in> set [0..<ndim]" using i(1) by simp
  moreover have "\<not> i < length sel \<or> \<not> i < length (py_range_neg ndim)
             \<or> \<not> (- int (length (v_shape array)) \<le> sel ! i \<and> sel ! i < int (length (v_shape array)))
             \<or> \<not> (- int (length (v_shape array)) \<le> py_range_neg ndim ! i
                   \<and> py_range_neg ndim ! i < int (length (v_shape array)))"
    using i by (auto simp: py_range_neg_nth)
  ultimately have "\<exists>i\<in>set [0..<ndim]. \<not> i < length sel \<or> \<not> i < length (py_range_neg ndim)
             \<or> \<not> (- int (length (v_shape array)) \<le> sel ! i \<and> sel ! i < int (length (v_shape array)))
             \<or> \<not> (- int (length (v_shape array)) \<le> py_range_neg ndim ! i
                   \<and> py_range_neg ndim ! i < int (length (v_shape array)))"
    by blast
  from swap_axes_loop_fails[OF this]
  obtain e where e: "swap_axes_loop array sel (py_range_neg ndim) [0..<ndim] = Inl e" by blast
  have "e = IndexError \<or> e = AxisError" using swap_axes_loop_error[OF e] .
  moreover have "do_stack func ndim array axes output s = (s, Inl e)"
    using do_stack_swap_fails[where array=array and axes=axes and ndim=ndim and e=e] e assms(1)
    by simp
  ultimately show ?thesis by blast
qed

subsection \<open>Effect of each step on the store\<close>

lemma np_zeros_effect:
  assumes "np_zeros sh s = (s1, v)"
  shows "mem s1 = mem s @ replicate (prod_list sh) 0" "calls s1 = calls s"
    "\<forall>a\<in>set (v_cells v). length (mem s) \<le> a"
  using assms by (auto simp: np_zeros_def)

lemma np_reshape_effect:
  assumes "np_reshape v sh s = (s1, r)"
  shows "\<exists>ys. mem s1 = mem s @ ys" "calls s1 = calls s"
    "\<And>v'. r = Inr v' \<Longrightarrow>
       set (v_cells v') \<subseteq> set (v_cells v) \<or> (\<forall>a\<in>set (v_cells v'). length (mem s) \<le> a)"
  using assms by (auto simp: np_reshape_def split: if_splits)

lemma np_reshape_infer_effect:
  assumes "np_reshape_infer v rest s = (s1, r)"
  shows "\<exists>ys. mem s1 = mem s @ ys" "calls s1 = calls s"
    "\<And>v'. r = Inr v' \<Longrightarrow>
       set (v_cells v') \<subseteq> set (v_cells v) \<or> (\<forall>a\<in>set (v_cells v'). length (mem s) \<le> a)"
proof -
  from assms have "(s1, r) = (s, Inl ValueError) \<or> np_reshape v ((length (v_cells v) div prod_list rest) # rest) s = (s1, r)"
    by (auto simp: np_reshape_infer_def Let_def split: if_splits)
  then show "\<exists>ys. mem s1 = mem s @ ys" "calls s1 = calls s"
    "\<And>v'. r = Inr v' \<Longrightarrow>
       set (v_cells v') \<subseteq> set (v_cells v) \<or> (\<forall>a\<in>set (v_cells v'). length (mem s) \<le> a)"
    using np_reshape_effect[of v "(length (v_cells v) div prod_list rest) # rest" s s1 r]
    by auto
qed

lemma np_index_cells:
  "np_index v i = Inr vi \<Longrightarrow> set (v_cells vi) \<subseteq> set (v_cells v)"
  by (auto simp: np_index_def split: list.splits if_splits dest!: in_set_takeD in_set_dropD)

lemma fold_update_length:
  "length (fold (\<lambda>(a, x) m. m[a := x]) ps m) = length m"
  by (induction ps arbitrary: m) (auto split: prod.splits)

lemma fold_update_other:
  "a \<notin> fst ` set ps \<Longrightarrow> fold (\<lambda>(a, x) m. m[a := x]) ps m ! a = m ! a"
  by (induction ps arbitrary: m) (auto split: prod.splits)

lemma np_assign_effect:
  assumes "np_assign t val s = (s', r)"
  shows "length (mem s') = length (mem s)"
    "\<And>a. a \<notin> set (v_cells t) \<Longrightarrow> mem s' ! a = mem s ! a"
proof -
  show "length (mem s') = length (mem s)"
    using assms by (auto simp: np_assign_def fold_update_length split: sum.splits)
next
  fix a assume a: "a \<notin> set (v_cells t)"
  have nz: "a \<notin> fst ` set (zip (v_cells t) ds)" for ds :: "'a list"
    using a by (auto dest: set_zip_leftD)
  show "mem s' ! a = mem s ! a"
    using assms fold_update_other[OF nz]
    by (auto simp: np_assign_def split: sum.splits)
qed

lemma np_array_effect:
  assumes "np_array val s = (s1, w)"
  shows "mem s1 = mem s @ nd_data val" "calls s1 = calls s"
  using assms by (auto simp: np_array_def)

lemma np_arrays_effect:
  "np_arrays vals s = (s', ws) \<Longrightarrow>
     mem s' = mem s @ concat (map nd_data vals) \<and> calls s' = calls s"
proof (induction vals arbitrary: s s' ws)
  case Nil
  then show ?case by simp
next
  case (Cons val vals)
  obtain s1 w where a: "np_array val s = (s1, w)" by (cases "np_array val s") auto
  obtain s2 ws' where b: "np_arrays vals s1 = (s2, ws')" by (cases "np_arrays vals s1") auto
  from Cons.prems a b have "s' = s2" by simp
  with Cons.IH[OF b] np_array_effect[OF a] show ?case by simp
qed

text \<open>
  A cell that the operation keeps valid and unchanged, and that is not a cell of the
  output, is valid and unchanged after the per-slice loop.
\<close>

lemma stack_loop_effect:
  assumes "stack_loop func arr out is s = (s', r)"
    and "\<forall>v t. a < length (mem t) \<longrightarrow>
           a < length (mem (fst (func v t))) \<and> mem (fst (func v t)) ! a = mem t ! a"
    and "a \<notin> set (v_cells out)" "a < length (mem s)"
  shows "a < length (mem s') \<and> mem s' ! a = mem s ! a"
  using assms(1,4)
proof (induction "is" arbitrary: s)
  case Nil
  then show ?case by simp
next
  case (Cons i "is")
  show ?case
  proof (cases "np_index arr i")
    case (Inl e)
    with Cons.prems show ?thesis by simp
  next
    case ai: (Inr ai)
    obtain s1 r1 where f: "func ai s = (s1, r1)" by (cases "func ai s") auto
    have k1: "a < length (mem s1) \<and> mem s1 ! a = mem s ! a"
      using assms(2) Cons.prems(2) f by (metis fst_conv)
    show ?thesis
    proof (cases r1)
      case (Inl e)
      with Cons.prems(1) ai f have "mem s' = mem s1" by auto
      with k1 show ?thesis by simp
    next
      case fr: (Inr fr)
      show ?thesis
      proof (cases "np_index out i")
        case (Inl e)
        with Cons.prems(1) ai f fr have "mem s' = mem s1" by auto
        with k1 show ?thesis by simp
      next
        case oi: (Inr oi)
        obtain s2 r2 where as: "np_assign oi fr (s1\<lparr>calls := Suc (calls s)\<rparr>) = (s2, r2)"
          by (cases "np_assign oi fr (s1\<lparr>calls := Suc (calls s)\<rparr>)") auto
        have "a \<notin> set (v_cells oi)" using np_index_cells[OF oi] assms(3) by auto
        then have k2: "a < length (mem s2) \<and> mem s2 ! a = mem s ! a"
          using np_assign_effect[OF as] k1 by simp
        show ?thesis
        proof (cases r2)
          case (Inl e)
          with Cons.prems(1) ai f fr oi as have "s' = s2" by simp
          with k2 show ?thesis by simp
        next
          case (Inr u)
          with Cons.prems(1) ai f fr oi as have "stack_loop func arr out is s2 = (s', r)" by simp
          from Cons.IH[OF this] k2 show ?thesis by simp
        qed
      qed
    qed
  qed
qed

lemma grow_keeps:
  assumes "\<exists>ys. mem s2 = mem s1 @ ys" "a < length (mem s1) \<and> mem s1 ! a = mem s0 ! a"
  shows "a < length (mem s2) \<and> mem s2 ! a = mem s0 ! a"
  using assms by (auto simp: nth_append)

text \<open>
  The frame of \<open>do_stack\<close>: a cell of the store that the operation keeps valid and
  unchanged, and that is not a cell of a supplied output, holds the same value after the
  call, whether it returns or raises.
\<close>

lemma do_stack_frame:
  fixes func :: "('a::zero) slice_op"
  assumes run: "do_stack func ndim array axes output s = (s', r)"
    and a: "a < length (mem s)"
    and out: "case output of None \<Rightarrow> True | Some out \<Rightarrow> a \<notin> set (v_cells out)"
    and keep: "\<forall>v t. a < length (mem t) \<longrightarrow>
           a < length (mem (fst (func v t))) \<and> mem (fst (func v t)) ! a = mem t ! a"
  shows "a < length (mem s') \<and> mem s' ! a = mem s ! a"
proof -
  let ?axes = "case axes of None \<Rightarrow> py_range_neg ndim | Some a \<Rightarrow> a"
  let ?last = "py_range_neg ndim"
  show ?thesis
  proof (cases "swap_axes_loop array ?axes ?last [0..<ndim]")
    case (Inl e)
    with run a show ?thesis by (simp add: do_stack_def Let_def)
  next
    case arr1: (Inr arr1)
    obtain s1 out1 where o1:
      "(case output of None \<Rightarrow> np_zeros (v_shape arr1) s | Some out \<Rightarrow> (s, out)) = (s1, out1)"
      by (cases "(case output of None \<Rightarrow> np_zeros (v_shape arr1) s | Some out \<Rightarrow> (s, out))") auto
    have i1: "a < length (mem s1) \<and> mem s1 ! a = mem s ! a"
      and c1: "a \<notin> set (v_cells out1)"
      using o1 out a np_zeros_effect[of "v_shape arr1" s s1 out1]
      by (auto simp: nth_append split: option.splits)
    obtain s2 r2 where o2:
      "np_reshape_infer arr1 (py_slice_from_neg (v_shape arr1) ndim) s1 = (s2, r2)"
      by (cases "np_reshape_infer arr1 (py_slice_from_neg (v_shape arr1) ndim) s1") auto
    have i2: "a < length (mem s2) \<and> mem s2 ! a = mem s ! a"
      using grow_keeps[OF np_reshape_infer_effect(1)[OF o2] i1] .
    show ?thesis
    proof (cases r2)
      case (Inl e)
      with run arr1 o1 o2 have "s' = s2" by (simp add: do_stack_def Let_def)
      with i2 show ?thesis by simp
    next
      case arr2: (Inr arr2)
      obtain s3 r3 where o3:
        "np_reshape_infer out1 (py_slice_from_neg (v_shape out1) ndim) s2 = (s3, r3)"
        by (cases "np_reshape_infer out1 (py_slice_from_neg (v_shape out1) ndim) s2") auto
      have i3: "a < length (mem s3) \<and> mem s3 ! a = mem s ! a"
        using grow_keeps[OF np_reshape_infer_effect(1)[OF o3] i2] .
      show ?thesis
      proof (cases r3)
        case (Inl e)
        with run arr1 o1 o2 arr2 o3 have "s' = s3" by (simp add: do_stack_def Let_def)
        with i3 show ?thesis by simp
      next
        case out2: (Inr out2)
        have c2: "a \<notin> set (v_cells out2)"
          using np_reshape_infer_effect(3)[OF o3 out2] c1 i2 by auto
        obtain s4 r4 where o4:
          "stack_loop func arr2 out2 [0..<hd (v_shape arr2)] s3 = (s4, r4)"
          by (cases "stack_loop func arr2 out2 [0..<hd (v_shape arr2)] s3") auto
        have i4: "a < length (mem s4) \<and> mem s4 ! a = mem s ! a"
          using stack_loop_effect[OF o4 keep c2] i3 by simp
        show ?thesis
        proof (cases r4)
          case (Inl e)
          with run arr1 o1 o2 arr2 o3 out2 o4 have "s' = s4" by (simp add: do_stack_def Let_def)
          with i4 show ?thesis by simp
        next
          case u: (Inr u)
          obtain s5 r5 where o5:
            "np_reshape arr2 (py_slice_to_neg (v_shape arr1) ndim
                                @ py_slice_from_neg (v_shape arr2) ndim) s4 = (s5, r5)"
            by (cases "np_reshape arr2 (py_slice_to_neg (v_shape arr1) ndim
                                @ py_slice_from_neg (v_shape arr2) ndim) s4") auto
          have i5: "a < length (mem s5) \<and> mem s5 ! a = mem s ! a"
            using grow_keeps[OF np_reshape_effect(1)[OF o5] i4] .
          show ?thesis
          proof (cases r5)
            case (Inl e)
            with run arr1 o1 o2 arr2 o3 out2 o4 u o5 have "s' = s5"
              by (simp add: do_stack_def Let_def)
            with i5 show ?thesis by simp
          next
            case arr3: (Inr arr3)
            obtain s6 r6 where o6:
              "np_reshape out2 (py_slice_to_neg (v_shape arr1) ndim
                                  @ py_slice_from_neg (v_shape out2) ndim) s5 = (s6, r6)"
              by (cases "np_reshape out2 (py_slice_to_neg (v_shape arr1) ndim
                                  @ py_slice_from_neg (v_shape out2) ndim) s5") auto
            have i6: "a < length (mem s6) \<and> mem s6 ! a = mem s ! a"
              using grow_keeps[OF np_reshape_effect(1)[OF o6] i5] .
            have "s' = s6"
              using run arr1 o1 o2 arr2 o3 out2 o4 u o5 arr3 o6
              by (cases r6) (auto simp: do_stack_def Let_def split: sum.splits)
            with i6 show ?thesis by simp
          qed
        qed
      qed
    qed
  qed
qed

lemma new_shape_loop_error: "new_shape_loop shape grid ps = Inl e \<Longrightarrow> e = IndexError"
  by (induction ps arbitrary: shape)
     (auto simp: py_setitem_def split: sum.splits if_splits dest: py_getitem_error)

lemma new_shape_loop_fails:
  "\<exists>p\<in>set ps. \<not> fst p < length grid \<Longrightarrow> \<exists>e. new_shape_loop shape grid ps = Inl e"
  by (induction ps arbitrary: shape) (auto simp: py_getitem_nat split: sum.splits)

subsection \<open>The claims about \<open>do_stack\<close>, \<open>enlarge_mask\<close> and \<open>regrid\<close>\<close>

text \<open>
  Claim C1. With the identity operation \<open>do_stack\<close> should return an array equal to
  its input for every axis selection. The second loop, commented \<open># Reswap axes\<close>,
  repeats the swaps in the order of the first loop instead of the reverse order, so the
  axes are restored only when the swaps commute. On an array of shape \<open>(1, 2, 3)\<close> with
  \<open>ndim = 2\<close> and \<open>axes = [2, 0]\<close> the result has shape \<open>(3, 1, 2)\<close>.
\<close>

theorem do_stack_identity_nontrailing_axes:
  "(case do_stack (value_op Inr) 2 \<lparr>v_shape = [1, 2, 3], v_cells = [0, 1, 2, 3, 4, 5]\<rparr> (Some [2, 0]) None \<lparr>mem = [10, 11, 12, 13, 14, 15 :: int], calls = 0\<rparr> of
      (s', r) \<Rightarrow> map_sum id (np_read s') r)
     = Inr \<lparr>nd_shape = [3, 1, 2], nd_data = [10, 13, 11, 14, 12, 15]\<rparr>
   \<and> np_read \<lparr>mem = [10, 11, 12, 13, 14, 15 :: int], calls = 0\<rparr> \<lparr>v_shape = [1, 2, 3], v_cells = [0, 1, 2, 3, 4, 5]\<rparr>
     = \<lparr>nd_shape = [1, 2, 3], nd_data = [10, 11, 12, 13, 14, 15]\<rparr>"
  by code_simp

text \<open>
  Claim C2. The result of \<open>regrid\<close> should have the input's shape with each regridded
  axis replaced by the length of its target grid. \<open>regrid\<close> allocates the output with
  that shape, but \<open>do_stack\<close> flattens the supplied output without swapping its axes
  and then swaps them at the end. For data of shape \<open>(3, 1, 2)\<close>, target grids of
  lengths 1 and 2 and \<open>axes = [0, 1]\<close> the call returns normally with shape
  \<open>(2, 2, 1)\<close>; the claim requires \<open>(1, 2, 2)\<close>. The interpolation used here returns
  an array of the shape of the coordinate arrays, transposed, as the source's does.
\<close>

theorem regrid_shape_nontrailing_axes:
  "(case regrid (\<lambda>(l :: (int \<times> int) list) cs (A :: int ndarray).
                   Inr \<lparr>nd_shape = rev (nd_shape (hd cs)),
                        nd_data = replicate (length (nd_data (hd cs))) 0\<rparr>)
           \<lparr>v_shape = [3, 1, 2], v_cells = [0, 1, 2, 3, 4, 5]\<rparr>
           [(0, 1), (0, 1)] [[0], [0, 1]] (Some [0, 1])
           \<lparr>mem = [10, 11, 12, 13, 14, 15], calls = 0\<rparr> of
      (s', r) \<Rightarrow> map_sum id v_shape r)
     = Inr [2, 2, 1]"
  by code_simp

text \<open>
  The \<open>axes\<close> argument of \<open>enlarge_mask\<close> reaches the convolution primitive only: the
  stacking engine is always called with its default selection.
\<close>

lemma enlarge_mask_axes_only_in_primitive:
  "enlarge_mask convolve msk n axes s
     = enlarge_mask (\<lambda>A k out. convolve A k axes) msk n None s"
  by (simp add: enlarge_mask_def)

text \<open>
  Claim C3. \<open>enlarge_mask\<close> should forward its \<open>axes\<close> argument to \<open>do_stack\<close> as the
  axis selection. It passes \<open>axes\<close> positionally, where \<open>do_stack\<close> collects it in
  \<open>*args\<close>; \<open>regrid\<close> passes \<open>axes=axes\<close> by keyword. On a mask of shape
  \<open>(2, 1, 1)\<close> with \<open>axes = [0, 1]\<close>, a primitive that answers 1 exactly when its slice
  has shape \<open>(1, 1)\<close>, the trailing two axes, and its third positional argument is
  \<open>[0, 1]\<close> makes the whole result true.
\<close>

theorem enlarge_mask_axes_not_forwarded:
  "snd (enlarge_mask
          (\<lambda>(A :: int ndarray) (k :: int ndarray) out.
              Inr \<lparr>nd_shape = nd_shape A,
                   nd_data = replicate (length (nd_data A))
                               (if nd_shape A = [1, 1] \<and> out = Some [0, 1] then 1 else 0)\<rparr>)
          \<lparr>nd_shape = [2, 1, 1], nd_data = [False, False]\<rparr> 0 (Some [0, 1])
          \<lparr>mem = [], calls = 0\<rparr>)
     = Inr \<lparr>nd_shape = [2, 1, 1], nd_data = [True, True]\<rparr>"
  by code_simp

text \<open>
  Claim C5, as stated: a selection whose length differs from \<open>ndim\<close>, or with an index
  outside the rank, should make \<open>do_stack\<close> fail before any per-slice computation. A
  selection that is too long is accepted: with \<open>ndim = 1\<close> and \<open>axes = [0, 7]\<close> on a
  one-dimensional array the call returns the array after one call of the operation.
\<close>

theorem do_stack_accepts_long_selection:
  "length [0, 7 :: int] \<noteq> 1
   \<and> \<not> (7 < int (length (v_shape \<lparr>v_shape = [2], v_cells = [0, 1]\<rparr>)))
   \<and> (case do_stack (value_op Inr) 1 \<lparr>v_shape = [2], v_cells = [0, 1]\<rparr> (Some [0, 7]) None
             \<lparr>mem = [10, 11 :: int], calls = 0\<rparr> of
         (s', r) \<Rightarrow> (calls s', map_sum id (np_read s') r))
       = (1, Inr \<lparr>nd_shape = [2], nd_data = [10, 11]\<rparr>)"
  by code_simp

text \<open>
  Claim C5, amended: when the axis selection (the given one, or the default trailing
  axes) has fewer than \<open>ndim\<close> entries, or one of its first \<open>ndim\<close> entries lies
  outside the rank of the array, \<open>do_stack\<close> raises \<open>IndexError\<close> or \<open>AxisError\<close>
  with the store, and so the count of per-slice calls, untouched; entries of the selection
  beyond the first \<open>ndim\<close> are ignored.
\<close>

theorem do_stack_rejects:
  fixes func :: "('a::zero) slice_op"
  assumes "sel = (case axes of None \<Rightarrow> py_range_neg ndim | Some a \<Rightarrow> a)"
  shows "((length sel < ndim
          \<or> (\<exists>i<ndim. i < length sel \<and>
                \<not> (- int (length (v_shape array)) \<le> sel ! i
                   \<and> sel ! i < int (length (v_shape array)))))
         \<longrightarrow> (\<exists>e. do_stack func ndim array axes output s = (s, Inl e)
                   \<and> (e = IndexError \<or> e = AxisError)))
       \<and> (length sel = ndim
         \<longrightarrow> do_stack func ndim array (Some (sel @ extra)) output s
             = do_stack func ndim array (Some sel) output s)"
proof (intro conjI impI)
  assume "length sel < ndim
          \<or> (\<exists>i<ndim. i < length sel \<and>
                \<not> (- int (length (v_shape array)) \<le> sel ! i
                   \<and> sel ! i < int (length (v_shape array))))"
  then have "\<exists>i<ndim. \<not> i < length sel
           \<or> \<not> (- int (length (v_shape array)) \<le> sel ! i \<and> sel ! i < int (length (v_shape array)))
           \<or> \<not> (- int (length (v_shape array)) \<le> int i - int ndim)"
    by blast
  from do_stack_fails_early[OF assms(1) this]
  show "\<exists>e. do_stack func ndim array axes output s = (s, Inl e)
             \<and> (e = IndexError \<or> e = AxisError)" .
next
  assume len: "length sel = ndim"
  have eq1: "swap_axes_loop arr (sel @ extra) la [0..<ndim] = swap_axes_loop arr sel la [0..<ndim]"
    for arr la
    using len by (intro swap_axes_loop_extra) simp
  have eq2: "reswap_loop arr out (sel @ extra) la [0..<ndim] = reswap_loop arr out sel la [0..<ndim]"
    for arr out la
    using len by (intro reswap_loop_extra) simp
  show "do_stack func ndim array (Some (sel @ extra)) output s
             = do_stack func ndim array (Some sel) output s"
    unfolding do_stack_def Let_def option.case eq1 eq2 by (rule refl)
qed

theorem do_stack_rejects_witness:
  "[1, 3] = (case Some [1, 3] of None \<Rightarrow> py_range_neg 2 | Some a \<Rightarrow> a)
   \<and> (length [1, 3 :: int] < 2
      \<or> (\<exists>i<2. i < length [1, 3 :: int] \<and>
            \<not> (- int (length (v_shape \<lparr>v_shape = [1, 2, 3], v_cells = [0, 1, 2, 3, 4, 5]\<rparr>)) \<le> [1, 3] ! i
                \<and> [1, 3] ! i < int (length (v_shape \<lparr>v_shape = [1, 2, 3], v_cells = [0, 1, 2, 3, 4, 5]\<rparr>)))))
   \<and> (\<exists>e. do_stack (value_op (Inr :: int ndarray \<Rightarrow> py_error + int ndarray)) 2 \<lparr>v_shape = [1, 2, 3], v_cells = [0, 1, 2, 3, 4, 5]\<rparr> (Some [1, 3]) None \<lparr>mem = [10, 11, 12, 13, 14, 15], calls = 0\<rparr>
           = (\<lparr>mem = [10, 11, 12, 13, 14, 15], calls = 0\<rparr>, Inl e)
          \<and> (e = IndexError \<or> e = AxisError))
   \<and> length [1, 3 :: int] = 2
   \<and> do_stack (value_op (Inr :: int ndarray \<Rightarrow> py_error + int ndarray)) 2 \<lparr>v_shape = [1, 2, 3], v_cells = [0, 1, 2, 3, 4, 5]\<rparr> (Some ([1, 3] @ [0])) None \<lparr>mem = [10, 11, 12, 13, 14, 15], calls = 0\<rparr>
     = do_stack (value_op Inr) 2 \<lparr>v_shape = [1, 2, 3], v_cells = [0, 1, 2, 3, 4, 5]\<rparr> (Some [1, 3]) None \<lparr>mem = [10, 11, 12, 13, 14, 15], calls = 0\<rparr>"
proof -
  have h1: "[1, 3] = (case Some [1, 3] of None \<Rightarrow> py_range_neg 2 | Some a \<Rightarrow> a)" by simp
  have h2: "length [1, 3 :: int] < 2
      \<or> (\<exists>i<2. i < length [1, 3 :: int] \<and>
            \<not> (- int (length (v_shape \<lparr>v_shape = [1, 2, 3], v_cells = [0, 1, 2, 3, 4, 5]\<rparr>)) \<le> [1, 3] ! i
                \<and> [1, 3] ! i < int (length (v_shape \<lparr>v_shape = [1, 2, 3], v_cells = [0, 1, 2, 3, 4, 5]\<rparr>))))"
    by (rule disjI2, rule exI[of _ 1]) simp
  have h3: "length [1, 3 :: int] = 2" by simp
  from do_stack_rejects[OF h1, where func = "value_op (Inr :: int ndarray \<Rightarrow> py_error + int ndarray)"
      and array = "\<lparr>v_shape = [1, 2, 3], v_cells = [0, 1, 2, 3, 4, 5]\<rparr>" and s = "\<lparr>mem = [10, 11, 12, 13, 14, 15], calls = 0\<rparr>" and extra = "[0]"]
  show ?thesis using h1 h2 h3 by blast
qed

text \<open>
  Claim C6, as stated: \<open>regrid\<close> should raise before any numeric computation begins
  when there are more regridded axes than the data has. On one-dimensional data with two
  target grids and \<open>axes = [0, 0]\<close> the shape loop succeeds, and the zero-filled output
  and the coordinate arrays of \<open>np.meshgrid\<close> are built before the first swap of
  \<open>do_stack\<close> raises: the store holds them when the exception leaves \<open>regrid\<close>.
\<close>

theorem regrid_builds_mesh_before_raising:
  "length (v_shape \<lparr>v_shape = [2], v_cells = [0, 1]\<rparr>) < length [[0], [0, 1 :: int]]
   \<and> regrid (\<lambda>(l :: (int \<times> int) list) cs (A :: int ndarray). Inr A) \<lparr>v_shape = [2], v_cells = [0, 1]\<rparr> [(0, 1), (0, 1)] [[0], [0, 1 :: int]] (Some [0, 0]) \<lparr>mem = [10, 11 :: int], calls = 0\<rparr>
     = (\<lparr>mem = [10, 11, 0, 0, 0, 0, 0, 1], calls = 0\<rparr>, Inl AxisError)
   \<and> concat (map nd_data (np_meshgrid [[0], [0, 1 :: int]])) = [0, 0, 0, 1]"
  by code_simp

lemma new_shape_loop_default_fails:
  assumes "length shape < length grid"
  shows "new_shape_loop shape grid
           (zip [0..<length (py_range_neg (length grid))] (py_range_neg (length grid)))
         = Inl IndexError"
proof -
  obtain m where m: "length grid = Suc m" using assms by (cases "length grid") auto
  have "zip [0..<length (py_range_neg (length grid))] (py_range_neg (length grid))
        = (0, - int (Suc m)) # zip [Suc 0..<Suc m] (map (\<lambda>i. int i - int (Suc m)) [Suc 0..<Suc m])"
    by (simp add: py_range_neg_def m upt_conv_Cons del: upt_Suc)
  moreover have "py_getitem grid (int 0) = Inr (grid ! 0)"
    using m by (simp add: py_getitem_nat del: of_nat_0)
  moreover have "py_setitem shape (- int (Suc m)) v = Inl IndexError" for v
    using assms m by (simp add: py_setitem_def)
  ultimately show ?thesis by simp
qed

text \<open>
  Claim C6, amended: \<open>regrid\<close> raises \<open>ValueError\<close> with nothing done when the number
  of limits differs from the number of target grids; with the default axis selection and
  more target grids than the data has axes it raises \<open>IndexError\<close> with nothing done; and
  whenever there are more target grids than axes of the data, or more selected axes than
  target grids (so for every selection of more axes than the data has), it raises
  \<open>ValueError\<close>, \<open>IndexError\<close> or \<open>AxisError\<close> before any per-slice interpolation,
  having done nothing or only allocated the zero-filled output and built the coordinate
  arrays.
\<close>

theorem regrid_rejects:
  fixes interp :: "'l list \<Rightarrow> ('a::zero) ndarray list \<Rightarrow> 'a ndarray \<Rightarrow> py_error + 'a ndarray"
  shows "(length limits \<noteq> length grid \<longrightarrow>
            regrid interp data limits grid axes s = (s, Inl ValueError))
       \<and> (length limits = length grid \<and> length (v_shape data) < length grid \<longrightarrow>
            regrid interp data limits grid None s = (s, Inl IndexError))
       \<and> (length (v_shape data) < length grid
          \<or> length grid < length (case axes of None \<Rightarrow> py_range_neg (length grid) | Some a \<Rightarrow> a)
          \<longrightarrow>
            (\<exists>s' e. regrid interp data limits grid axes s = (s', Inl e)
                     \<and> (e = ValueError \<or> e = IndexError \<or> e = AxisError)
                     \<and> calls s' = calls s
                     \<and> (mem s' = mem s
                        \<or> (\<exists>shape. mem s' = mem s @ replicate (prod_list shape) 0
                                        @ concat (map nd_data (np_meshgrid grid))))))"
proof (intro conjI impI)
  assume "length limits \<noteq> length grid"
  then show "regrid interp data limits grid axes s = (s, Inl ValueError)"
    by (simp add: regrid_def Let_def)
next
  assume "length limits = length grid \<and> length (v_shape data) < length grid"
  then show "regrid interp data limits grid None s = (s, Inl IndexError)"
    using new_shape_loop_default_fails[of "v_shape data" grid]
    by (simp add: regrid_def Let_def)
next
  let ?ndim = "length grid"
  let ?sel = "case axes of None \<Rightarrow> py_range_neg ?ndim | Some a \<Rightarrow> a"
  assume rk: "length (v_shape data) < length grid \<or> length grid < length ?sel"
  show "\<exists>s' e. regrid interp data limits grid axes s = (s', Inl e)
                     \<and> (e = ValueError \<or> e = IndexError \<or> e = AxisError)
                     \<and> calls s' = calls s
                     \<and> (mem s' = mem s
                        \<or> (\<exists>shape. mem s' = mem s @ replicate (prod_list shape) 0
                                        @ concat (map nd_data (np_meshgrid grid))))"
  proof (cases "length limits \<noteq> ?ndim")
    case True
    then have "regrid interp data limits grid axes s = (s, Inl ValueError)"
      by (simp add: regrid_def Let_def)
    then show ?thesis by blast
  next
    case lim: False
    show ?thesis
    proof (cases "new_shape_loop (v_shape data) grid (zip [0..<length ?sel] ?sel)")
      case (Inl e)
      then have "regrid interp data limits grid axes s = (s, Inl e)"
        using lim by (simp add: regrid_def Let_def)
      moreover have "e = IndexError" using new_shape_loop_error[OF Inl] .
      ultimately show ?thesis by blast
    next
      case (Inr shape)
      have "\<not> length grid < length ?sel"
      proof
        assume long: "length grid < length ?sel"
        then have "(length grid, ?sel ! length grid) \<in> set (zip [0..<length ?sel] ?sel)"
          by (auto simp: set_zip intro!: exI[of _ "length grid"])
        then have "\<exists>p\<in>set (zip [0..<length ?sel] ?sel). \<not> fst p < length grid"
          by force
        from new_shape_loop_fails[OF this, of "v_shape data"] Inr show False by simp
      qed
      with rk have rk: "length (v_shape data) < length grid" by simp
      obtain s1 out where z: "np_zeros shape s = (s1, out)"
        by (cases "np_zeros shape s :: 'a store \<times> view") auto
      obtain s2 coords where c: "np_arrays (np_meshgrid grid) s1 = (s2, coords)"
        by (cases "np_arrays (np_meshgrid grid) s1") auto
      have s2: "calls s2 = calls s"
        "mem s2 = mem s @ replicate (prod_list shape) 0 @ concat (map nd_data (np_meshgrid grid))"
        using np_zeros_effect[OF z] np_arrays_effect[OF c] by auto
      let ?f = "\<lambda>v t. (t, interp limits (map (np_read t) coords) (np_read t v))"
      have "?sel = (case Some ?sel of None \<Rightarrow> py_range_neg ?ndim | Some a \<Rightarrow> a)" by simp
      moreover have "\<exists>i<?ndim. \<not> i < length ?sel
           \<or> \<not> (- int (length (v_shape data)) \<le> ?sel ! i \<and> ?sel ! i < int (length (v_shape data)))
           \<or> \<not> (- int (length (v_shape data)) \<le> int i - int ?ndim)"
        using rk by (intro exI[of _ 0]) auto
      ultimately obtain e where e:
        "do_stack ?f ?ndim data (Some ?sel) (Some out) s2 = (s2, Inl e)"
        "e = IndexError \<or> e = AxisError"
        using do_stack_fails_early[where sel="?sel" and axes="Some ?sel" and ndim="?ndim"
            and array=data and func="?f" and s=s2]
        by blast
      then have "regrid interp data limits grid axes s = (s2, Inl e)"
        using lim Inr z c by (simp add: regrid_def Let_def)
      then show ?thesis using s2 e(2) by blast
    qed
  qed
qed

theorem regrid_rejects_witness:
  "length [(0, 1) :: int \<times> int] \<noteq> length [[0], [0, 1 :: int]]
   \<and> regrid (\<lambda>(l :: (int \<times> int) list) cs (A :: int ndarray). Inr A) \<lparr>v_shape = [2], v_cells = [0, 1]\<rparr> [(0, 1)] [[0], [0, 1 :: int]] None \<lparr>mem = [10, 11 :: int], calls = 0\<rparr> = (\<lparr>mem = [10, 11 :: int], calls = 0\<rparr>, Inl ValueError)
   \<and> (length [(0, 1), (0, 1) :: int \<times> int] = length [[0], [0, 1 :: int]] \<and> length (v_shape \<lparr>v_shape = [2], v_cells = [0, 1]\<rparr>) < length [[0], [0, 1 :: int]])
   \<and> regrid (\<lambda>(l :: (int \<times> int) list) cs (A :: int ndarray). Inr A) \<lparr>v_shape = [2], v_cells = [0, 1]\<rparr> [(0, 1), (0, 1)] [[0], [0, 1 :: int]] None \<lparr>mem = [10, 11 :: int], calls = 0\<rparr> = (\<lparr>mem = [10, 11 :: int], calls = 0\<rparr>, Inl IndexError)
   \<and> (length (v_shape \<lparr>v_shape = [2], v_cells = [0, 1]\<rparr>) < length [[0], [0, 1 :: int]]
      \<or> length [[0], [0, 1 :: int]] < length (case Some [0, 0] of None \<Rightarrow> py_range_neg (length [[0], [0, 1 :: int]]) | Some a \<Rightarrow> a))
   \<and> (\<exists>s' e. regrid (\<lambda>(l :: (int \<times> int) list) cs (A :: int ndarray). Inr A) \<lparr>v_shape = [2], v_cells = [0, 1]\<rparr> [(0, 1), (0, 1)] [[0], [0, 1 :: int]] (Some [0, 0]) \<lparr>mem = [10, 11 :: int], calls = 0\<rparr> = (s', Inl e)
              \<and> (e = ValueError \<or> e = IndexError \<or> e = AxisError)
              \<and> calls s' = calls \<lparr>mem = [10, 11 :: int], calls = 0\<rparr>
              \<and> (mem s' = mem \<lparr>mem = [10, 11 :: int], calls = 0\<rparr>
                 \<or> (\<exists>shape. mem s' = mem \<lparr>mem = [10, 11 :: int], calls = 0\<rparr> @ replicate (prod_list shape) 0
                                 @ concat (map nd_data (np_meshgrid [[0], [0, 1 :: int]])))))"
proof -
  have h1: "length [(0, 1) :: int \<times> int] \<noteq> length [[0], [0, 1 :: int]]" by simp
  have h2: "length [(0, 1), (0, 1) :: int \<times> int] = length [[0], [0, 1 :: int]] \<and> length (v_shape \<lparr>v_shape = [2], v_cells = [0, 1]\<rparr>) < length [[0], [0, 1 :: int]]"
    by simp
  have h3: "length (v_shape \<lparr>v_shape = [2], v_cells = [0, 1]\<rparr>) < length [[0], [0, 1 :: int]]
      \<or> length [[0], [0, 1 :: int]] < length (case Some [0, 0] of None \<Rightarrow> py_range_neg (length [[0], [0, 1 :: int]]) | Some a \<Rightarrow> a)"
    by simp
  from h1 regrid_rejects[where limits = "[(0, 1) :: int \<times> int]" and grid = "[[0], [0, 1 :: int]]"
      and interp = "(\<lambda>(l :: (int \<times> int) list) cs (A :: int ndarray). Inr A)" and data = "\<lparr>v_shape = [2], v_cells = [0, 1]\<rparr>" and axes = None and s = "\<lparr>mem = [10, 11 :: int], calls = 0\<rparr>"]
  have a: "regrid (\<lambda>(l :: (int \<times> int) list) cs (A :: int ndarray). Inr A) \<lparr>v_shape = [2], v_cells = [0, 1]\<rparr> [(0, 1)] [[0], [0, 1 :: int]] None \<lparr>mem = [10, 11 :: int], calls = 0\<rparr> = (\<lparr>mem = [10, 11 :: int], calls = 0\<rparr>, Inl ValueError)"
    by blast
  from h2 regrid_rejects[where limits = "[(0, 1), (0, 1) :: int \<times> int]" and grid = "[[0], [0, 1 :: int]]"
      and interp = "(\<lambda>(l :: (int \<times> int) list) cs (A :: int ndarray). Inr A)" and data = "\<lparr>v_shape = [2], v_cells = [0, 1]\<rparr>" and axes = None and s = "\<lparr>mem = [10, 11 :: int], calls = 0\<rparr>"]
  have b: "regrid (\<lambda>(l :: (int \<times> int) list) cs (A :: int ndarray). Inr A) \<lparr>v_shape = [2], v_cells = [0, 1]\<rparr> [(0, 1), (0, 1)] [[0], [0, 1 :: int]] None \<lparr>mem = [10, 11 :: int], calls = 0\<rparr> = (\<lparr>mem = [10, 11 :: int], calls = 0\<rparr>, Inl IndexError)"
    by blast
  from h3 regrid_rejects[where limits = "[(0, 1), (0, 1) :: int \<times> int]" and grid = "[[0], [0, 1 :: int]]"
      and interp = "(\<lambda>(l :: (int \<times> int) list) cs (A :: int ndarray). Inr A)" and data = "\<lparr>v_shape = [2], v_cells = [0, 1]\<rparr>" and axes = "Some [0, 0]" and s = "\<lparr>mem = [10, 11 :: int], calls = 0\<rparr>"]
  have c: "\<exists>s' e. regrid (\<lambda>(l :: (int \<times> int) list) cs (A :: int ndarray). Inr A) \<lparr>v_shape = [2], v_cells = [0, 1]\<rparr> [(0, 1), (0, 1)] [[0], [0, 1 :: int]] (Some [0, 0]) \<lparr>mem = [10, 11 :: int], calls = 0\<rparr> = (s', Inl e)
              \<and> (e = ValueError \<or> e = IndexError \<or> e = AxisError)
              \<and> calls s' = calls \<lparr>mem = [10, 11 :: int], calls = 0\<rparr>
              \<and> (mem s' = mem \<lparr>mem = [10, 11 :: int], calls = 0\<rparr>
                 \<or> (\<exists>shape. mem s' = mem \<lparr>mem = [10, 11 :: int], calls = 0\<rparr> @ replicate (prod_list shape) 0
                                 @ concat (map nd_data (np_meshgrid [[0], [0, 1 :: int]]))))"
    by blast
  show ?thesis using h1 h2 h3 a b c by blast
qed

text \<open>
  Claim C10, as stated, for every call with an output that does not alias the input: it
  fails when the operation works in place. \<open>do_stack\<close> hands the operation the view
  \<open>array[i]\<close>, here a view of the input itself, so an operation that doubles its
  argument in place and returns it changes the input, although \<open>do_stack\<close> itself
  writes only to the output.
\<close>

theorem do_stack_in_place_operation:
  "(case Some \<lparr>v_shape = [2], v_cells = [2, 3]\<rparr> of None \<Rightarrow> True
    | Some out \<Rightarrow> set (v_cells out) \<inter> set (v_cells \<lparr>v_shape = [2], v_cells = [0, 1]\<rparr>) = {})
   \<and> np_read \<lparr>mem = [10, 11, 0, 0 :: int], calls = 0\<rparr> \<lparr>v_shape = [2], v_cells = [0, 1]\<rparr> = \<lparr>nd_shape = [2], nd_data = [10, 11]\<rparr>
   \<and> np_read (fst (do_stack
        (\<lambda>v t. (t\<lparr>mem := fold (\<lambda>a m. m[a := 2 * m ! a]) (v_cells v) (mem t)\<rparr>,
                 Inr \<lparr>nd_shape = v_shape v, nd_data = map (\<lambda>a. 2 * mem t ! a) (v_cells v)\<rparr>))
        1 \<lparr>v_shape = [2], v_cells = [0, 1]\<rparr> None (Some \<lparr>v_shape = [2], v_cells = [2, 3]\<rparr>) \<lparr>mem = [10, 11, 0, 0 :: int], calls = 0\<rparr>)) \<lparr>v_shape = [2], v_cells = [0, 1]\<rparr>
     = \<lparr>nd_shape = [2], nd_data = [20, 22]\<rparr>"
  by code_simp

text \<open>
  Claim C10, amended: when the array lives in the store, a supplied output shares no cell
  with it, and the per-slice operation leaves every cell of the array valid and unchanged
  (it does not write to the input in place), the contents of the array are the same
  after \<open>do_stack\<close> as before, whether the call returns or raises: \<open>do_stack\<close> writes
  the per-slice results into cells of the output, of a copy of it, or of a fresh array,
  and never into the input.
\<close>

theorem do_stack_preserves_input:
  fixes func :: "('a::zero) slice_op"
  assumes "\<forall>a\<in>set (v_cells array). a < length (mem s)"
    and "case output of None \<Rightarrow> True
         | Some out \<Rightarrow> set (v_cells out) \<inter> set (v_cells array) = {}"
    and "\<forall>v t. \<forall>a\<in>set (v_cells array). a < length (mem t) \<longrightarrow>
           a < length (mem (fst (func v t))) \<and> mem (fst (func v t)) ! a = mem t ! a"
  shows "np_read (fst (do_stack func ndim array axes output s)) array = np_read s array"
proof -
  obtain s' r where run: "do_stack func ndim array axes output s = (s', r)"
    by (cases "do_stack func ndim array axes output s") auto
  have "mem s' ! a = mem s ! a" if a: "a \<in> set (v_cells array)" for a
  proof -
    have "a < length (mem s)" using assms(1) a by blast
    moreover have "case output of None \<Rightarrow> True | Some out \<Rightarrow> a \<notin> set (v_cells out)"
      using assms(2) a by (auto split: option.splits)
    moreover have "\<forall>v t. a < length (mem t) \<longrightarrow>
           a < length (mem (fst (func v t))) \<and> mem (fst (func v t)) ! a = mem t ! a"
      using assms(3) a by blast
    ultimately show ?thesis using do_stack_frame[OF run] by blast
  qed
  then show ?thesis by (simp add: np_read_def run)
qed

theorem do_stack_preserves_input_witness:
  "set (v_cells \<lparr>v_shape = [2], v_cells = [0, 1]\<rparr>) \<subseteq> {..<length (mem \<lparr>mem = [10, 11, 0, 0 :: int], calls = 0\<rparr>)}
   \<and> (case Some \<lparr>v_shape = [2], v_cells = [2, 3]\<rparr> of None \<Rightarrow> True
       | Some out \<Rightarrow> set (v_cells out) \<inter> set (v_cells \<lparr>v_shape = [2], v_cells = [0, 1]\<rparr>) = {})
   \<and> np_read (fst (do_stack (value_op (\<lambda>A. Inr (A\<lparr>nd_data := map (\<lambda>x. x + 1) (nd_data A)\<rparr>))) 1
                      \<lparr>v_shape = [2], v_cells = [0, 1]\<rparr> None (Some \<lparr>v_shape = [2], v_cells = [2, 3]\<rparr>) \<lparr>mem = [10, 11, 0, 0 :: int], calls = 0\<rparr>)) \<lparr>v_shape = [2], v_cells = [0, 1]\<rparr>
     = np_read \<lparr>mem = [10, 11, 0, 0 :: int], calls = 0\<rparr> \<lparr>v_shape = [2], v_cells = [0, 1]\<rparr>"
proof -
  have h0: "set (v_cells \<lparr>v_shape = [2], v_cells = [0, 1]\<rparr>) \<subseteq> {..<length (mem \<lparr>mem = [10, 11, 0, 0 :: int], calls = 0\<rparr>)}" by simp
  have h1: "\<forall>a\<in>set (v_cells \<lparr>v_shape = [2], v_cells = [0, 1]\<rparr>). a < length (mem \<lparr>mem = [10, 11, 0, 0 :: int], calls = 0\<rparr>)" by simp
  have h2: "case Some \<lparr>v_shape = [2], v_cells = [2, 3]\<rparr> of None \<Rightarrow> True
       | Some out \<Rightarrow> set (v_cells out) \<inter> set (v_cells \<lparr>v_shape = [2], v_cells = [0, 1]\<rparr>) = {}"
    by simp
  have h3: "\<forall>v t. \<forall>a\<in>set (v_cells \<lparr>v_shape = [2], v_cells = [0, 1]\<rparr>). a < length (mem t) \<longrightarrow>
      a < length (mem (fst (value_op (\<lambda>A. Inr (A\<lparr>nd_data := map (\<lambda>x. x + 1) (nd_data A)\<rparr>)) v t)))
      \<and> mem (fst (value_op (\<lambda>A. Inr (A\<lparr>nd_data := map (\<lambda>x. x + 1) (nd_data A)\<rparr>)) v t)) ! a
        = mem (t :: int store) ! a"
    by (simp add: value_op_def)
  from do_stack_preserves_input[OF h1 h2 h3]
  show ?thesis using h0 h2 by blast
qed

end
